theory Spec2Isabelle
  imports Main "HOL-Library.Word"
begin

unbundle bit_operations_syntax

section \<open>Bytes, control characters and tables\<close>

text \<open>
  The component works on \<open>uint8_t\<close> buffers and reads them as C strings; timestamps and
  baud rates are \<open>uint32_t\<close>. Bytes are 8-bit words, compared as unsigned values.
  C++ member names end in an underscore, which a HOL constant name cannot; the model
  drops that underscore and keeps the rest of each name.
\<close>

type_synonym u8 = "8 word"
type_synonym u32 = "32 word"
type_synonym bytes = "u8 list"

abbreviation ETX :: u8 where "ETX \<equiv> 0x03"
abbreviation STX :: u8 where "STX \<equiv> 0x02"
abbreviation ACK :: u8 where "ACK \<equiv> 0x06"
abbreviation SOH :: u8 where "SOH \<equiv> 0x01"
abbreviation CR :: u8 where "CR \<equiv> 0x0D"
abbreviation LF :: u8 where "LF \<equiv> 0x0A"

text \<open>A character or string literal of the source, as bytes.\<close>

definition ch :: "char \<Rightarrow> u8" where
  "ch c = of_char c"

definition str :: "string \<Rightarrow> bytes" where
  "str cs = map ch cs"

text \<open>The C string that starts at offset \<open>p\<close> of a buffer: the bytes up to the first NUL.\<close>

definition cstr :: "bytes \<Rightarrow> nat \<Rightarrow> bytes" where
  "cstr buf p = takeWhile (\<lambda>c. c \<noteq> 0) (drop p buf)"

definition BAUDRATES :: "u32 list" where
  "BAUDRATES = [300, 600, 1200, 2400, 4800, 9600, 19200]"

definition MAX_BAUDRATE :: u32 where
  "MAX_BAUDRATE = BAUDRATES ! (length BAUDRATES - 1)"

definition PROTO_B_MIN_BAUDRATE :: u32 where
  "PROTO_B_MIN_BAUDRATE = BAUDRATES ! 1"

definition obis_codes :: "bytes list" where
  "obis_codes = map str
     [''0F0880FF'',
      ''100700FF'', ''240700FF'', ''380700FF'', ''4C0700FF'',
      ''600900FF'',
      ''200700FF'', ''340700FF'', ''480700FF'',
      ''1F0700FF'', ''330700FF'', ''470700FF'',
      ''0D07FFFF'']"

definition num_obis_codes :: nat where
  "num_obis_codes = length obis_codes"

text \<open>
  The four range constants are declared in the component's header, which is not part of
  the sources at hand; the functions that use them take them as a parameter.
\<close>

record ranges =
  PROTO_B_RANGE_BEGIN :: u8
  PROTO_B_RANGE_END :: u8
  PROTO_C_RANGE_BEGIN :: u8
  PROTO_C_RANGE_END :: u8

section \<open>Checksum\<close>

text \<open>
  The loop of \<open>update_lrc_\<close> (and of the BCC computation in \<open>build_readout_command_\<close>):
  every byte is folded into the accumulator with exclusive-or, left to right.
\<close>

fun xor_bytes :: "u8 \<Rightarrow> bytes \<Rightarrow> u8" where
  "xor_bytes acc [] = acc"
| "xor_bytes acc (x # xs) = xor_bytes (acc XOR x) xs"

section \<open>Data model\<close>

datatype CommState =
    INFINITE_WAIT | WAIT | MODE_D_WAIT | MODE_D_READOUT | BEGIN | BATTERY_WAKEUP
  | SEND_REQUEST | GET_IDENTIFICATION | PREPARE_ACK | SET_BAUD_RATE | WAIT_FOR_PPP
  | WAIT_FOR_PPP_READ_DATA | SEND_PASSWORD | WAIT_FOR_ACK | WAIT_FOR_STX2 | READOUT2
  | ASK_FOR_ENERGY | WAIT_FOR_STX | READOUT | UPDATE_STATES

datatype ProtocolMode = PROTOCOL_MODE_A | PROTOCOL_MODE_B | PROTOCOL_MODE_C | PROTOCOL_MODE_D

text \<open>
  Reads and writes outside an array are undefined behaviour in C++; the model stops with
  a fault where the source would perform one.
\<close>

datatype fault = BufferIndexOutOfRange | TableIndexOutOfRange

text \<open>The messages the component logs at error level.\<close>

datatype errlog =
    NoTransmission | InvalidIdentification | InvalidFrameFormat bytes
  | BccFailed u8 u8 | CannotConvert bytes | SensorWithoutValue bytes

text \<open>
  What the component does to its collaborators, in order: bytes written to the UART, a
  baud-rate change, the connection status published, a sensor published, an error logged.
\<close>

datatype event = TX bytes | BAUD u32 | CONNECTED bool | PUBLISH bytes | LOG_E errlog

text \<open>
  Modelled from the spec: the sensor classes (\<open>IEC62056SensorBase\<close> and its two
  subclasses) are declared in a header that is not at hand. A sensor has an OBIS code, a
  type, a group (text sensors) and the value it last received, if any; a numeric sensor
  keeps the text that the source hands to \<open>strtof\<close>, the conversion itself is not modelled.
\<close>

datatype SensorType = SENSOR | TEXT_SENSOR

record sensor =
  s_obis :: bytes
  s_type :: SensorType
  s_group :: int
  s_value :: "bytes option"

text \<open>
  The component's members, the three function-local statics of \<open>loop\<close>
  (\<open>baud_rate_char\<close>, \<open>mode_d_empty_frame_received\<close>, \<open>new_baudrate\<close>), and the world it
  talks to: the bytes waiting in the UART (\<open>rx\<close>), the clock (\<open>clk k\<close> is what the
  \<open>k\<close>-th call of \<open>millis()\<close> returns, \<open>clk_n\<close> counts the calls made) and the events
  so far. The arrays \<open>in_buf_\<close> and \<open>out_buf_\<close> are lists whose length is the array size
  (\<open>MAX_IN_BUF_SIZE\<close>, \<open>MAX_OUT_BUF_SIZE\<close>). The counters \<open>retry_counter_\<close> and
  \<open>max_retries_\<close> are natural numbers: the source only increments the counter while it is
  below the maximum, so it cannot wrap.
\<close>

record st =
  force_mode_d :: bool
  battery_meter :: bool
  config_baud_rate_max_bps :: u32
  connection_timeout_ms :: u32
  max_retries :: nat
  retry_delay :: u32
  update_interval_ms :: u32
  state :: CommState
  reported_state :: CommState
  wait_next_state :: CommState
  wait_start_timestamp :: u32
  wait_period_ms :: u32
  mode :: ProtocolMode
  baud_rate_identification :: u8
  meter_identification :: bytes
  retry_counter :: nat
  current_obis_index :: nat
  last_transmission_from_meter_timestamp :: u32
  retry_connection_start_timestamp :: u32
  scheduled_connection_start_timestamp :: u32
  scheduled_timestamp_set :: bool
  lrc :: u8
  readout_lrc :: u8
  in_buf :: bytes
  data_in_size :: nat
  out_buf :: bytes
  data_out_size :: nat
  sensors :: "sensor list"
  sensors_iterator :: nat
  baud_rate_char :: u8
  mode_d_empty_frame_received :: bool
  new_baudrate :: u32
  rx :: bytes
  clk :: "nat \<Rightarrow> u32"
  clk_n :: nat
  trace :: "event list"

section \<open>Collaborators and inline helpers of the header\<close>

text \<open>
  Modelled from the spec: \<open>millis()\<close> is the monotonic clock \<open>now_ms()\<close> of the host.
  Each call takes the next reading of \<open>clk\<close>.
\<close>

definition millis :: "st \<Rightarrow> u32 \<times> st" where
  "millis s = (clk s (clk_n s), s\<lparr>clk_n := Suc (clk_n s)\<rparr>)"

definition emit :: "event \<Rightarrow> st \<Rightarrow> st" where
  "emit e s = s\<lparr>trace := trace s @ [e]\<rparr>"

text \<open>
  Modelled from the spec: the inline helpers below are defined in the header
  \<open>iec62056.h\<close>, which is not at hand. \<open>set_next_state_\<close> stores the state;
  \<open>is_wait_state_\<close> holds in the two waiting states; \<open>check_wait_period_\<close> compares
  the time since the wait began with the wait period; the "last byte received from meter"
  timestamp is refreshed from the clock; the periodic cadence is disabled by the sentinel
  \<open>UINT32_MAX\<close> (line 1094 of the source); the retry counter is incremented and reset
  to 0; \<open>reset_lrc_\<close> resets the checksum accumulator to 0.
\<close>

definition set_next_state :: "CommState \<Rightarrow> st \<Rightarrow> st" where
  "set_next_state c s = s\<lparr>state := c\<rparr>"

definition is_wait_state :: "st \<Rightarrow> bool" where
  "is_wait_state s = (state s = WAIT \<or> state s = INFINITE_WAIT)"

definition check_wait_period :: "st \<Rightarrow> bool \<times> st" where
  "check_wait_period s =
     (case millis s of (t, s1) \<Rightarrow> (t - wait_start_timestamp s1 \<ge> wait_period_ms s1, s1))"

definition update_last_transmission_from_meter_timestamp :: "st \<Rightarrow> st" where
  "update_last_transmission_from_meter_timestamp s =
     (case millis s of (t, s1) \<Rightarrow> s1\<lparr>last_transmission_from_meter_timestamp := t\<rparr>)"

definition is_periodic_readout_enabled :: "st \<Rightarrow> bool" where
  "is_periodic_readout_enabled s = (update_interval_ms s \<noteq> 0xFFFFFFFF)"

definition retry_counter_inc :: "st \<Rightarrow> st" where
  "retry_counter_inc s = s\<lparr>retry_counter := Suc (retry_counter s)\<rparr>"

definition retry_counter_reset :: "st \<Rightarrow> st" where
  "retry_counter_reset s = s\<lparr>retry_counter := 0\<rparr>"

definition reset_lrc :: "st \<Rightarrow> st" where
  "reset_lrc s = s\<lparr>lrc := 0\<rparr>"

text \<open>
  \<open>memcpy(dst, src, n)\<close> and \<open>memset(dst, v, n)\<close> on the first \<open>n\<close> elements of an array
  that has at least \<open>n\<close> elements (the source asserts statically that \<open>out_buf_\<close> holds
  84 bytes, more than any frame it builds).
\<close>

definition memcpy :: "bytes \<Rightarrow> bytes \<Rightarrow> nat \<Rightarrow> bytes" where
  "memcpy dst src n = take n src @ drop n dst"

definition memset :: "bytes \<Rightarrow> u8 \<Rightarrow> nat \<Rightarrow> bytes" where
  "memset dst v n = replicate n v @ drop n dst"

section \<open>Sending and receiving frames\<close>

definition send_frame :: "st \<Rightarrow> st" where
  "send_frame s = emit (TX (take (data_out_size s) (out_buf s))) s"

text \<open>
  Lines 170 to 182, when \<open>read_one_byte\<close> delivers the byte \<open>b\<close>: it is appended, or,
  when the array is full, the array is shifted left by one (\<open>memmove\<close>) and the byte
  takes the last place.
\<close>

definition memmove_left :: "bytes \<Rightarrow> nat \<Rightarrow> bytes" where
  "memmove_left buf n = take n (drop 1 buf) @ drop n buf"

definition store_byte :: "u8 \<Rightarrow> st \<Rightarrow> st" where
  "store_byte b s =
     (if data_in_size s < length (in_buf s)
      then s\<lparr>in_buf := (in_buf s)[data_in_size s := b], data_in_size := Suc (data_in_size s)\<rparr>
      else s\<lparr>in_buf := (memmove_left (in_buf s) (data_in_size s - 1))[data_in_size s - 1 := b]\<rparr>)"

text \<open>
  Lines 184 to 234, the terminator checks after a byte has been stored, in the order of
  the source. \<open>Some n\<close> is \<open>return n\<close> (\<open>Some 0\<close> for the echo, which returns 0),
  \<open>None\<close> is the end of the loop body with no return.
\<close>

definition check_frame :: "st \<Rightarrow> nat option \<times> st" where
  "check_frame s =
     (let n = data_in_size s in
      if in_buf s ! (n - 1) = ACK then
        (let s1 = update_last_transmission_from_meter_timestamp s
         in (Some n, s1\<lparr>data_in_size := 0\<rparr>))
      else if n \<ge> 2 \<and> ETX = in_buf s ! (n - 2) then
        (let s1 = s\<lparr>readout_lrc := in_buf s ! (n - 1)\<rparr>;
             s2 = update_last_transmission_from_meter_timestamp s1
         in (Some n, s2\<lparr>data_in_size := 0\<rparr>))
      else if STX = in_buf s ! (n - 1) then
        (let s1 = reset_lrc s;
             s2 = update_last_transmission_from_meter_timestamp s1
         in (Some n, s2\<lparr>data_in_size := 0\<rparr>))
      else if n \<ge> 2 \<and> CR = in_buf s ! (n - 2) \<and> LF = in_buf s ! (n - 1) then
        (if n = data_out_size s
            \<and> take (data_out_size s) (out_buf s) = take (data_out_size s) (in_buf s)
         then (Some 0, s\<lparr>data_out_size := 0, data_in_size := 0\<rparr>)
         else (let s1 = update_last_transmission_from_meter_timestamp s
               in (Some n, s1\<lparr>data_in_size := 0\<rparr>)))
      else (None, s))"

text \<open>
  Modelled from the spec: \<open>available\<close> and \<open>read_one_byte\<close> belong to the UART classes
  (header \<open>iec62056uart.h\<close> and the host framework, not at hand). They are the
  transport's \<open>bytes_available\<close> and \<open>try_read_byte\<close>: the number of waiting bytes,
  and the first waiting byte, or a failure when none waits. Bytes that arrive later are
  added to \<open>rx\<close> between two calls of \<open>loop\<close>.

  The \<open>while\<close> loop of \<open>receive_frame_\<close>: \<open>count\<close> is never changed inside the loop, so
  the loop ends only by a \<open>return\<close>: the time budget of 15 ms is used up, or
  \<open>read_one_byte\<close> fails, or a terminator is found. The loop runs over the waiting
  bytes and returns the value, the bytes left waiting and the state. A byte is stored
  before the checks, so the checks see at least one byte.
\<close>

fun receive_loop :: "u32 \<Rightarrow> bytes \<Rightarrow> st \<Rightarrow> nat \<times> bytes \<times> st" where
  "receive_loop while_start [] s =
     (case millis s of (t, s1) \<Rightarrow>
        if t - while_start > 15 then (0, [], s1)
        else if data_in_size s1 < length (in_buf s1) then (0, [], s1)
        else (0, [], s1\<lparr>in_buf := memmove_left (in_buf s1) (data_in_size s1 - 1)\<rparr>))"
| "receive_loop while_start (b # bs) s =
     (case millis s of (t, s1) \<Rightarrow>
        if t - while_start > 15 then (0, b # bs, s1)
        else (case check_frame (store_byte b s1) of
                (Some r, s2) \<Rightarrow> (r, bs, s2)
              | (None, s2) \<Rightarrow> receive_loop while_start bs s2))"

definition receive_frame :: "st \<Rightarrow> nat \<times> st" where
  "receive_frame s =
     (if length (rx s) \<le> 0 then (0, s)
      else (case millis s of (while_start, s1) \<Rightarrow>
              (case receive_loop while_start (rx s1) s1 of
                 (r, rest, s2) \<Rightarrow> (r, s2\<lparr>rx := rest\<rparr>))))"

definition send_battery_wakeup_sequence :: "st \<Rightarrow> st" where
  "send_battery_wakeup_sequence s =
     send_frame (s\<lparr>out_buf := memset (out_buf s) 0 84, data_out_size := 84\<rparr>)"

section \<open>Identification\<close>

text \<open>
  \<open>get_id_\<close>: the pointer \<open>p\<close> starts at offset \<open>frame_size - 3\<close> and walks down to the
  start of the array, as long as the frame has the minimum size of 7. The result is the
  offset of the \<open>/\<close> found, and the frame's CR is overwritten by NUL.
\<close>

fun get_id_scan :: "bytes \<Rightarrow> nat \<Rightarrow> nat option" where
  "get_id_scan buf 0 = (if ch CHR ''/'' = buf ! 0 then Some 0 else None)"
| "get_id_scan buf (Suc i) =
     (if ch CHR ''/'' = buf ! Suc i then Some (Suc i) else get_id_scan buf i)"

definition get_id :: "nat \<Rightarrow> st \<Rightarrow> nat option \<times> st" where
  "get_id frame_size s =
     (let min_id_data_size = 7 in
      if \<not> frame_size \<ge> min_id_data_size then (None, s)
      else (case get_id_scan (in_buf s) (frame_size - 1 - 2) of
              None \<Rightarrow> (None, s)
            | Some p \<Rightarrow>
                if length (in_buf s) - 1 - p < min_id_data_size then (None, s)
                else (Some p, s\<lparr>in_buf := (in_buf s)[frame_size - 2 := 0]\<rparr>)))"

definition set_protocol :: "ranges \<Rightarrow> u8 \<Rightarrow> st \<Rightarrow> st" where
  "set_protocol K z s =
     (if force_mode_d s then s\<lparr>mode := PROTOCOL_MODE_D\<rparr>
      else if z \<ge> PROTO_B_RANGE_BEGIN K \<and> z \<le> PROTO_B_RANGE_END K
        then s\<lparr>mode := PROTOCOL_MODE_B\<rparr>
      else if z \<ge> PROTO_C_RANGE_BEGIN K \<and> z \<le> PROTO_C_RANGE_END K
        then s\<lparr>mode := PROTOCOL_MODE_C\<rparr>
      else s\<lparr>mode := PROTOCOL_MODE_A\<rparr>)"

definition baud_at :: "nat \<Rightarrow> fault + u32" where
  "baud_at i = (if i < length BAUDRATES then Inr (BAUDRATES ! i) else Inl TableIndexOutOfRange)"

definition identification_to_baud_rate :: "ranges \<Rightarrow> u8 \<Rightarrow> fault + u32" where
  "identification_to_baud_rate K z =
     (if z \<ge> PROTO_B_RANGE_BEGIN K \<and> z \<le> PROTO_B_RANGE_END K
        then baud_at (1 + unat z - unat (PROTO_B_RANGE_BEGIN K))
      else if z \<ge> PROTO_C_RANGE_BEGIN K \<and> z \<le> PROTO_C_RANGE_END K
        then baud_at (unat z - unat (PROTO_C_RANGE_BEGIN K))
      else Inr 0)"

text \<open>The two \<open>for\<close> loops of \<open>baud_rate_to_identification_\<close>: the first index, from
  \<open>i\<close> on, whose table entry is the rate.\<close>

fun find_baud :: "u32 \<Rightarrow> nat \<Rightarrow> u32 list \<Rightarrow> nat option" where
  "find_baud baud_rate i [] = None"
| "find_baud baud_rate i (r # rs) =
     (if baud_rate = r then Some i else find_baud baud_rate (Suc i) rs)"

definition baud_rate_to_identification :: "ranges \<Rightarrow> st \<Rightarrow> u32 \<Rightarrow> u8" where
  "baud_rate_to_identification K s baud_rate =
     (if PROTOCOL_MODE_B = mode s then
        (case find_baud baud_rate 1 (drop 1 BAUDRATES) of
           Some i \<Rightarrow> PROTO_B_RANGE_BEGIN K + of_nat i - 1
         | None \<Rightarrow> PROTO_B_RANGE_BEGIN K)
      else
        (case find_baud baud_rate 0 BAUDRATES of
           Some i \<Rightarrow> PROTO_C_RANGE_BEGIN K + of_nat i
         | None \<Rightarrow> PROTO_C_RANGE_BEGIN K))"

definition connection_status :: "bool \<Rightarrow> st \<Rightarrow> st" where
  "connection_status connected s = emit (CONNECTED connected) s"

text \<open>\<open>parse_id_\<close> on the C string at offset \<open>p\<close> of \<open>in_buf_\<close>.\<close>

definition parse_id :: "ranges \<Rightarrow> nat \<Rightarrow> st \<Rightarrow> st" where
  "parse_id K p s =
     (let packet = cstr (in_buf s) p;
          len = length packet;
          s1 = s\<lparr>meter_identification := packet\<rparr>;
          s2 = s1\<lparr>baud_rate_identification := (if len \<ge> 5 then packet ! 4 else 0)\<rparr>
      in set_protocol K (baud_rate_identification s2) s2)"

section \<open>Building the readout command\<close>

definition build_readout_command :: "bytes \<Rightarrow> st \<Rightarrow> st" where
  "build_readout_command obis_code s =
     (let frame = [SOH, ch CHR ''R'', ch CHR ''1'', STX] @ obis_code
                    @ [ch CHR ''('', ch CHR '')'', ETX];
          bcc = xor_bytes 0x00 (drop 1 frame);
          out = frame @ [bcc]
      in s\<lparr>out_buf := memcpy (out_buf s) out (length out), data_out_size := length out\<rparr>)"

definition update_baudrate :: "u32 \<Rightarrow> st \<Rightarrow> st" where
  "update_baudrate baudrate s = emit (BAUD baudrate) s"

definition update_lrc :: "bytes \<Rightarrow> nat \<Rightarrow> st \<Rightarrow> st" where
  "update_lrc data n s = s\<lparr>lrc := xor_bytes (lrc s) (take n data)\<rparr>"

section \<open>Sensors and the data-line parser\<close>

definition isdigit :: "u8 \<Rightarrow> bool" where
  "isdigit c = (ch CHR ''0'' \<le> c \<and> c \<le> ch CHR ''9'')"

text \<open>The loop of \<open>validate_float_\<close>: the count of characters before the unit, or
  \<open>None\<close> where the source returns false from inside the loop.\<close>

fun validate_float_scan :: "bytes \<Rightarrow> nat \<Rightarrow> nat option" where
  "validate_float_scan [] count = Some count"
| "validate_float_scan (c # cs) count =
     (if c = 0 \<or> c = ch CHR ''*'' then Some count
      else if \<not> (isdigit c \<or> c = ch CHR ''.'' \<or> c = ch CHR ''-'') then None
      else validate_float_scan cs (Suc count))"

definition validate_float :: "bytes \<Rightarrow> bool" where
  "validate_float v =
     (let max_len = 20 in
      case validate_float_scan v 0 of
        None \<Rightarrow> False
      | Some count \<Rightarrow> count > 0 \<and> count \<le> max_len)"

definition set_sensor_value :: "nat \<Rightarrow> bytes \<Rightarrow> bytes \<Rightarrow> st \<Rightarrow> bool \<times> st" where
  "set_sensor_value i value1 value2 s =
     (let sen = sensors s ! i in
      if s_type sen = TEXT_SENSOR then
        (let v = (if s_group sen = 0 then cstr (in_buf s) 0
                  else if s_group sen = 2 then value2
                  else value1)
         in (True, s\<lparr>sensors := (sensors s)[i := sen\<lparr>s_value := Some v\<rparr>]\<rparr>))
      else if validate_float value1
        then (True, s\<lparr>sensors := (sensors s)[i := sen\<lparr>s_value := Some value1\<rparr>]\<rparr>)
      else (False, emit (LOG_E (CannotConvert value1)) s))"

text \<open>
  \<open>sensors_\<close> is a multimap from OBIS code to sensor, here the list of its entries in
  the map's order. The loop over \<open>equal_range(obis)\<close> visits the entries with that key.
\<close>

fun set_matching :: "bytes \<Rightarrow> bytes \<Rightarrow> bytes \<Rightarrow> nat list \<Rightarrow> st \<Rightarrow> st" where
  "set_matching obis val1 val2 [] s = s"
| "set_matching obis val1 val2 (i # js) s =
     set_matching obis val1 val2 js
       (if s_obis (sensors s ! i) = obis then snd (set_sensor_value i val1 val2 s) else s)"

definition update_matching_sensors :: "bytes \<Rightarrow> bytes \<Rightarrow> bytes \<Rightarrow> st \<Rightarrow> st" where
  "update_matching_sensors obis val1 val2 s =
     set_matching obis val1 val2 [0..<length (sensors s)] s"

definition verify_all_sensors_got_value :: "st \<Rightarrow> st" where
  "verify_all_sensors_got_value s =
     (case find (\<lambda>sen. s_value sen = None) (sensors s) of
        None \<Rightarrow> s
      | Some sen \<Rightarrow> emit (LOG_E (SensorWithoutValue (s_obis sen))) s)"

definition obis_char_ok :: "u8 \<Rightarrow> bool" where
  "obis_char_ok c =
     (c = ch CHR '':'' \<or> c = ch CHR ''.'' \<or> c = ch CHR ''-'' \<or> c = ch CHR ''*''
      \<or> (c \<ge> ch CHR ''0'' \<and> c \<le> ch CHR ''9'') \<or> (c \<ge> ch CHR ''A'' \<and> c \<le> ch CHR ''Z''))"

definition validate_obis :: "bytes \<Rightarrow> bool" where
  "validate_obis obis =
     (let max_obis_len = 25 in
      if obis = [] then True
      else if length obis > max_obis_len then False
      else list_all obis_char_ok obis)"

text \<open>
  The scan of \<open>parse_line_\<close>: the four pointers are offsets into the line, \<open>None\<close> for
  \<open>nullptr\<close>; \<open>i\<close> is the offset of the character looked at.
\<close>

type_synonym brackets = "nat option \<times> nat option \<times> nat option \<times> nat option"

fun scan_brackets :: "bytes \<Rightarrow> nat \<Rightarrow> brackets \<Rightarrow> brackets" where
  "scan_brackets [] i acc = acc"
| "scan_brackets (c # cs) i (open_bracket, close_bracket, open_bracket2, close_bracket2) =
     scan_brackets cs (Suc i)
       (if ch CHR ''('' = c \<and> open_bracket = None
          then (Some i, close_bracket, open_bracket2, close_bracket2)
        else if ch CHR '')'' = c \<and> close_bracket = None
          then (open_bracket, Some i, open_bracket2, close_bracket2)
        else if ch CHR ''('' = c \<and> open_bracket2 = None
          then (open_bracket, close_bracket, Some i, close_bracket2)
        else if ch CHR '')'' = c \<and> close_bracket2 = None
          then (open_bracket, close_bracket, open_bracket2, Some i)
        else (open_bracket, close_bracket, open_bracket2, close_bracket2))"

text \<open>\<open>std::string::assign(p, n)\<close> on the line: \<open>n\<close> characters from offset \<open>p\<close>.\<close>

definition substr :: "bytes \<Rightarrow> nat \<Rightarrow> nat \<Rightarrow> bytes" where
  "substr line p n = take n (drop p line)"

text \<open>\<open>parse_line_\<close> on a C string: \<open>None\<close> for false, the three output strings for true.\<close>

definition parse_line :: "bytes \<Rightarrow> (bytes \<times> bytes \<times> bytes) option" where
  "parse_line line =
     (case scan_brackets line 0 (None, None, None, None) of
        (Some open_bracket, Some close_bracket, open_bracket2, close_bracket2) \<Rightarrow>
          if close_bracket < open_bracket then None
          else
            (let out_obis = substr line 0 open_bracket;
                 out_value1 = substr line (open_bracket + 1) (close_bracket - open_bracket - 1);
                 out_value2 =
                   (case (open_bracket2, close_bracket2) of
                      (Some o2, Some c2) \<Rightarrow>
                        if c2 > o2 then substr line (o2 + 1) (c2 - o2 - 1) else []
                    | _ \<Rightarrow> [])
             in if validate_obis out_obis then Some (out_obis, out_value1, out_value2)
                else None)
      | _ \<Rightarrow> None)"

section \<open>Waiting and retrying\<close>

text \<open>
  \<open>clear_uart_input_buffer_\<close> reads everything that waits, in pieces of at most the array
  size, each piece to the start of \<open>in_buf_\<close>. A C++ array has at least one element; with
  none the loop of the source would not end, and the model returns the array as it is.
\<close>

function clear_loop :: "bytes \<Rightarrow> bytes \<Rightarrow> bytes" where
  "clear_loop waiting buf =
     (if waiting = [] \<or> buf = [] then buf
      else (let len = min (length waiting) (length buf)
            in clear_loop (drop len waiting) (memcpy buf waiting len)))"
  by pat_completeness auto
termination
  by (relation "measure (\<lambda>(waiting, buf). length waiting)") auto

definition clear_uart_input_buffer :: "st \<Rightarrow> st" where
  "clear_uart_input_buffer s =
     s\<lparr>in_buf := clear_loop (rx s) (in_buf s), rx := [], data_in_size := 0\<rparr>"

definition wait :: "u32 \<Rightarrow> CommState \<Rightarrow> st \<Rightarrow> st" where
  "wait ms c s =
     (case millis (set_next_state WAIT s) of
        (t, s1) \<Rightarrow> s1\<lparr>wait_start_timestamp := t, wait_period_ms := ms, wait_next_state := c\<rparr>)"

definition report_state :: "st \<Rightarrow> st" where
  "report_state s = (if state s \<noteq> reported_state s then s\<lparr>reported_state := state s\<rparr> else s)"

definition wait_next_readout :: "st \<Rightarrow> st" where
  "wait_next_readout s =
     (if force_mode_d s then set_next_state MODE_D_WAIT s
      else
        (case millis s of
           (now, s1) \<Rightarrow>
             (let delta = now - scheduled_connection_start_timestamp s1;
                  actual_wait_time = update_interval_ms s1 - delta;
                  s2 = retry_counter_reset s1;
                  actual_wait_time' =
                    (if delta > update_interval_ms s2 \<and> is_periodic_readout_enabled s2
                     then 0 else actual_wait_time);
                  s3 = s2\<lparr>scheduled_timestamp_set := False\<rparr>
              in if is_periodic_readout_enabled s3 then wait actual_wait_time' BEGIN s3
                 else set_next_state INFINITE_WAIT s3)))"

definition retry_or_sleep :: "st \<Rightarrow> st" where
  "retry_or_sleep s =
     (if force_mode_d s then set_next_state MODE_D_WAIT s
      else if retry_counter s \<ge> max_retries s then wait_next_readout s
      else (let s1 = retry_counter_inc s in wait (retry_delay s1) BEGIN s1))"

definition trigger_readout :: "st \<Rightarrow> st" where
  "trigger_readout s =
     (if force_mode_d s then s
      else if \<not> is_wait_state s then s
      else set_next_state BEGIN s)"

definition update_connection_start_timestamp :: "st \<Rightarrow> st" where
  "update_connection_start_timestamp s =
     (case millis s of
        (t, s1) \<Rightarrow>
          (let s2 = s1\<lparr>retry_connection_start_timestamp := t\<rparr>
           in if \<not> scheduled_timestamp_set s2
              then s2\<lparr>scheduled_connection_start_timestamp := retry_connection_start_timestamp s2,
                      scheduled_timestamp_set := True\<rparr>
              else s2))"

section \<open>The state machine\<close>

text \<open>
  One definition for each \<open>case\<close> of the \<open>switch\<close> in \<open>loop\<close>, named after its label.
  A case that can read or write outside an array returns \<open>fault + st\<close>. The arguments of
  the debug log calls are evaluated where they read the clock (lines 441 and 706) or the
  baud table (lines 538 and 569), as a build at the default log level does; verbose log
  calls are compiled out of such a build and their arguments change nothing.
\<close>

definition id_request :: bytes where
  "id_request = [ch CHR ''/'', ch CHR ''?'', ch CHR ''!'', CR, LF]"

definition set_baud_and_programm :: bytes where
  "set_baud_and_programm = [ACK, 0x30, 0x30, 0x31, 0x0d, 0x0a]"

definition set_password :: bytes where
  "set_password =
     [SOH, ch CHR ''P'', ch CHR ''1'', STX, ch CHR ''('', ch CHR ''0'', ch CHR ''0'',
      ch CHR ''0'', ch CHR ''0'', ch CHR ''0'', ch CHR ''0'', ch CHR ''0'', ch CHR ''0'',
      ch CHR '')'', ETX, 0x61]"

definition case_INFINITE_WAIT :: "st \<Rightarrow> st" where
  "case_INFINITE_WAIT s = update_last_transmission_from_meter_timestamp (report_state s)"

definition case_WAIT :: "st \<Rightarrow> st" where
  "case_WAIT s =
     (case check_wait_period (report_state s) of
        (elapsed, s1) \<Rightarrow>
          update_last_transmission_from_meter_timestamp
            (if elapsed then s1\<lparr>state := wait_next_state s1\<rparr> else s1))"

definition case_MODE_D_WAIT :: "ranges \<Rightarrow> st \<Rightarrow> st" where
  "case_MODE_D_WAIT K s =
     (case receive_frame (report_state s) of
        (frame_size, s1) \<Rightarrow>
          if frame_size = 0 then s1
          else
            (case get_id frame_size s1 of
               (None, s2) \<Rightarrow> s2
             | (Some packet, s2) \<Rightarrow>
                 (let s3 = parse_id K packet s2;
                      s4 = set_next_state MODE_D_READOUT s3;
                      s5 = update_last_transmission_from_meter_timestamp s4
                  in case millis s5 of
                       (t, s6) \<Rightarrow>
                         (let s7 = s6\<lparr>retry_connection_start_timestamp := t\<rparr>;
                              s8 = connection_status True s7
                          in s8\<lparr>mode_d_empty_frame_received := False\<rparr>))))"

text \<open>The lines that parse the data line in \<open>in_buf_\<close> and set the sensors with its
  OBIS code; they stand three times in the source (lines 465 to 474, 729 to 737 and 767
  to 776).\<close>

definition parse_and_set :: "st \<Rightarrow> st" where
  "parse_and_set s =
     (case parse_line (cstr (in_buf s) 0) of
        None \<Rightarrow> emit (LOG_E (InvalidFrameFormat (cstr (in_buf s) 0))) s
      | Some (obis, val1, val2) \<Rightarrow> update_matching_sensors obis val1 val2 s)"

definition case_MODE_D_READOUT :: "st \<Rightarrow> fault + st" where
  "case_MODE_D_READOUT s =
     (case receive_frame (report_state s) of
        (frame_size, s1) \<Rightarrow>
          if frame_size = 0 then Inr s1
          else if in_buf s1 ! 0 = ch CHR ''!'' then
            (let s2 = snd (millis (connection_status False s1));
                 s3 = verify_all_sensors_got_value s2;
                 s4 = set_next_state UPDATE_STATES s3
             in Inr (s4\<lparr>sensors_iterator := 0\<rparr>))
          else if frame_size < 2 then Inl BufferIndexOutOfRange
          else
            (let s2 = s1\<lparr>in_buf := (in_buf s1)[frame_size - 2 := 0]\<rparr>
             in if \<not> mode_d_empty_frame_received s2 \<and> 0 = in_buf s2 ! 0
                then Inr (s2\<lparr>mode_d_empty_frame_received := True\<rparr>)
                else Inr (parse_and_set s2)))"

definition case_BEGIN :: "st \<Rightarrow> st" where
  "case_BEGIN s =
     (let s1 = (report_state s)\<lparr>current_obis_index := 0\<rparr>;
          s2 = update_connection_start_timestamp s1;
          s3 = connection_status True s2;
          s4 = (if battery_meter s3 then set_next_state BATTERY_WAKEUP s3
                else set_next_state SEND_REQUEST s3);
          s5 = update_baudrate 300 s4
      in update_last_transmission_from_meter_timestamp s5)"

definition case_BATTERY_WAKEUP :: "st \<Rightarrow> st" where
  "case_BATTERY_WAKEUP s =
     wait (1600 + 2240) SEND_REQUEST (send_battery_wakeup_sequence (report_state s))"

definition case_SEND_REQUEST :: "st \<Rightarrow> st" where
  "case_SEND_REQUEST s =
     (let s1 = clear_uart_input_buffer (report_state s);
          s2 = s1\<lparr>out_buf := memcpy (out_buf s1) id_request (length id_request)\<rparr>;
          s3 = s2\<lparr>data_out_size := length id_request\<rparr>;
          s4 = send_frame s3
      in set_next_state GET_IDENTIFICATION s4)"

definition case_GET_IDENTIFICATION :: "ranges \<Rightarrow> st \<Rightarrow> fault + st" where
  "case_GET_IDENTIFICATION K s =
     (case receive_frame (report_state s) of
        (frame_size, s1) \<Rightarrow>
          if frame_size = 0 then Inr s1
          else
            (case get_id frame_size s1 of
               (None, s2) \<Rightarrow> Inr (retry_or_sleep (emit (LOG_E InvalidIdentification) s2))
             | (Some packet, s2) \<Rightarrow>
                 (let s3 = parse_id K packet s2 in
                  if mode s3 \<noteq> PROTOCOL_MODE_A then
                    (case identification_to_baud_rate K (baud_rate_identification s3) of
                       Inl f \<Rightarrow> Inl f
                     | Inr r \<Rightarrow> Inr (set_next_state PREPARE_ACK s3))
                  else Inr (set_next_state PREPARE_ACK s3))))"

text \<open>Lines 556 to 572: the character for the baud rate to switch to.\<close>

definition negotiated_baud_rate_char :: "ranges \<Rightarrow> st \<Rightarrow> fault + u8" where
  "negotiated_baud_rate_char K s =
     (if config_baud_rate_max_bps s \<noteq> 0 \<and> config_baud_rate_max_bps s \<noteq> MAX_BAUDRATE then
        (case identification_to_baud_rate K (baud_rate_identification s) of
           Inl f \<Rightarrow> Inl f
         | Inr bps \<Rightarrow>
             (let negotiated_bps =
                    (if bps > config_baud_rate_max_bps s then
                       (if mode s = PROTOCOL_MODE_B
                           \<and> config_baud_rate_max_bps s < PROTO_B_MIN_BAUDRATE
                        then PROTO_B_MIN_BAUDRATE
                        else config_baud_rate_max_bps s)
                     else bps)
              in Inr (baud_rate_to_identification K s negotiated_bps)))
      else
        (case identification_to_baud_rate K (baud_rate_identification s) of
           Inl f \<Rightarrow> Inl f
         | Inr bps \<Rightarrow> Inr (baud_rate_identification s)))"

definition case_PREPARE_ACK :: "ranges \<Rightarrow> st \<Rightarrow> fault + st" where
  "case_PREPARE_ACK K s0 =
     (let s = report_state s0 in
      if mode s = PROTOCOL_MODE_A then Inr (set_next_state WAIT_FOR_STX s)
      else
        (case negotiated_baud_rate_char K s of
           Inl f \<Rightarrow> Inl f
         | Inr c \<Rightarrow>
             (let s1 = s\<lparr>baud_rate_char := c\<rparr>;
                  s2 = s1\<lparr>data_out_size := length set_baud_and_programm\<rparr>;
                  s3 = s2\<lparr>out_buf := memcpy (out_buf s2) set_baud_and_programm (data_out_size s2)\<rparr>;
                  s4 = s3\<lparr>out_buf := (out_buf s3)[2 := baud_rate_char s3]\<rparr>;
                  s5 = send_frame s4
              in case identification_to_baud_rate K (baud_rate_char s5) of
                   Inl f \<Rightarrow> Inl f
                 | Inr r \<Rightarrow> Inr (wait 250 SET_BAUD_RATE (s5\<lparr>new_baudrate := r\<rparr>)))))"

definition case_SET_BAUD_RATE :: "st \<Rightarrow> st" where
  "case_SET_BAUD_RATE s = set_next_state WAIT_FOR_PPP (update_baudrate (new_baudrate s) s)"

text \<open>The five cases that wait for a frame and look at its first byte.\<close>

definition case_WAIT_FOR_PPP :: "st \<Rightarrow> st" where
  "case_WAIT_FOR_PPP s =
     (case receive_frame (report_state s) of
        (frame_size, s1) \<Rightarrow>
          if frame_size \<ge> 1 then
            (if SOH = in_buf s1 ! 0 then set_next_state WAIT_FOR_PPP_READ_DATA s1
             else retry_or_sleep s1)
          else s1)"

definition case_WAIT_FOR_PPP_READ_DATA :: "st \<Rightarrow> st" where
  "case_WAIT_FOR_PPP_READ_DATA s =
     (case receive_frame (report_state s) of
        (frame_size, s1) \<Rightarrow>
          if frame_size \<ge> 1 then
            (if ch CHR ''('' = in_buf s1 ! 0 then set_next_state SEND_PASSWORD s1
             else retry_or_sleep s1)
          else s1)"

definition case_SEND_PASSWORD :: "st \<Rightarrow> st" where
  "case_SEND_PASSWORD s =
     (let s1 = (report_state s)\<lparr>data_out_size := length set_password\<rparr>;
          s2 = s1\<lparr>out_buf := memcpy (out_buf s1) set_password (data_out_size s1)\<rparr>;
          s3 = send_frame s2
      in set_next_state WAIT_FOR_ACK s3)"

definition case_WAIT_FOR_ACK :: "st \<Rightarrow> st" where
  "case_WAIT_FOR_ACK s =
     (case receive_frame (report_state s) of
        (frame_size, s1) \<Rightarrow>
          if frame_size \<ge> 1 then
            (if ACK = in_buf s1 ! 0 then set_next_state ASK_FOR_ENERGY s1
             else s1)
          else s1)"

definition case_WAIT_FOR_STX2 :: "st \<Rightarrow> st" where
  "case_WAIT_FOR_STX2 s =
     (case receive_frame (report_state s) of
        (frame_size, s1) \<Rightarrow>
          if frame_size \<ge> 1 then
            (if STX = in_buf s1 ! 0 then set_next_state READOUT2 s1
             else retry_or_sleep s1)
          else s1)"

definition case_READOUT2 :: "st \<Rightarrow> st" where
  "case_READOUT2 s =
     (case receive_frame (report_state s) of
        (frame_size, s1) \<Rightarrow>
          if frame_size \<ge> 1 then set_next_state ASK_FOR_ENERGY s1 else s1)"

definition case_ASK_FOR_ENERGY :: "st \<Rightarrow> fault + st" where
  "case_ASK_FOR_ENERGY s0 =
     (let s = report_state s0 in
      if \<not> current_obis_index s < length obis_codes then Inl TableIndexOutOfRange
      else
        (let s1 = build_readout_command (obis_codes ! current_obis_index s) s;
             s2 = send_frame s1
         in Inr (set_next_state WAIT_FOR_STX s2)))"

definition case_WAIT_FOR_STX :: "st \<Rightarrow> st" where
  "case_WAIT_FOR_STX s =
     (case receive_frame (report_state s) of
        (frame_size, s1) \<Rightarrow>
          if frame_size \<ge> 1 then
            (if STX = in_buf s1 ! 0 then set_next_state READOUT s1
             else retry_or_sleep s1)
          else s1)"

definition case_READOUT :: "st \<Rightarrow> fault + st" where
  "case_READOUT s =
     (case receive_frame (report_state s) of
        (frame_size, s1) \<Rightarrow>
          if frame_size = 0 then Inr s1
          else if frame_size \<ge> 2 \<and> in_buf s1 ! (frame_size - 2) = ETX then
            (let s2 = (snd (millis s1))\<lparr>lrc := 0x00\<rparr>;
                 s3 = update_lrc (in_buf s2) (frame_size - 1) s2;
                 s4 = (if lrc s3 = readout_lrc s3 then s3
                       else emit (LOG_E (BccFailed (lrc s3) (readout_lrc s3))) s3);
                 s5 = s4\<lparr>in_buf := (in_buf s4)[frame_size - 2 := 0]\<rparr>;
                 s6 = parse_and_set s5;
                 s7 = connection_status False s6;
                 s8 = s7\<lparr>current_obis_index := Suc (current_obis_index s7)\<rparr>
             in if current_obis_index s8 < num_obis_codes
                then Inr (set_next_state ASK_FOR_ENERGY s8)
                else
                  (let s9 = verify_all_sensors_got_value s8;
                       s10 = set_next_state UPDATE_STATES s9
                   in Inr (s10\<lparr>sensors_iterator := 0\<rparr>)))
          else
            (let s2 = update_lrc (in_buf s1) frame_size s1
             in if frame_size < 2 then Inl BufferIndexOutOfRange
                else Inr (parse_and_set (s2\<lparr>in_buf := (in_buf s2)[frame_size - 2 := 0]\<rparr>))))"

definition case_UPDATE_STATES :: "st \<Rightarrow> st" where
  "case_UPDATE_STATES s0 =
     (let s = report_state s0 in
      if sensors_iterator s \<noteq> length (sensors s) then
        (let sen = sensors s ! sensors_iterator s;
             s1 = s\<lparr>sensors_iterator := Suc (sensors_iterator s)\<rparr>
         in if s_value sen \<noteq> None then emit (PUBLISH (s_obis sen)) s1 else s1)
      else wait_next_readout s)"

text \<open>The cases, as the \<open>switch\<close> selects them.\<close>

fun dispatch :: "ranges \<Rightarrow> CommState \<Rightarrow> st \<Rightarrow> fault + st" where
  "dispatch K INFINITE_WAIT s = Inr (case_INFINITE_WAIT s)"
| "dispatch K WAIT s = Inr (case_WAIT s)"
| "dispatch K MODE_D_WAIT s = Inr (case_MODE_D_WAIT K s)"
| "dispatch K MODE_D_READOUT s = case_MODE_D_READOUT s"
| "dispatch K BEGIN s = Inr (case_BEGIN s)"
| "dispatch K BATTERY_WAKEUP s = Inr (case_BATTERY_WAKEUP s)"
| "dispatch K SEND_REQUEST s = Inr (case_SEND_REQUEST s)"
| "dispatch K GET_IDENTIFICATION s = case_GET_IDENTIFICATION K s"
| "dispatch K PREPARE_ACK s = case_PREPARE_ACK K s"
| "dispatch K SET_BAUD_RATE s = Inr (case_SET_BAUD_RATE s)"
| "dispatch K WAIT_FOR_PPP s = Inr (case_WAIT_FOR_PPP s)"
| "dispatch K WAIT_FOR_PPP_READ_DATA s = Inr (case_WAIT_FOR_PPP_READ_DATA s)"
| "dispatch K SEND_PASSWORD s = Inr (case_SEND_PASSWORD s)"
| "dispatch K WAIT_FOR_ACK s = Inr (case_WAIT_FOR_ACK s)"
| "dispatch K WAIT_FOR_STX2 s = Inr (case_WAIT_FOR_STX2 s)"
| "dispatch K READOUT2 s = Inr (case_READOUT2 s)"
| "dispatch K ASK_FOR_ENERGY s = case_ASK_FOR_ENERGY s"
| "dispatch K WAIT_FOR_STX s = Inr (case_WAIT_FOR_STX s)"
| "dispatch K READOUT s = case_READOUT s"
| "dispatch K UPDATE_STATES s = Inr (case_UPDATE_STATES s)"

text \<open>The guard at the head of \<open>loop\<close>: no byte from the meter for the connection timeout,
  outside the waiting states. \<open>now\<close> is the clock reading \<open>loop\<close> takes first.\<close>

definition timed_out :: "u32 \<Rightarrow> st \<Rightarrow> bool" where
  "timed_out now s =
     (\<not> is_wait_state s
      \<and> now - last_transmission_from_meter_timestamp s \<ge> connection_timeout_ms s)"

definition loop :: "ranges \<Rightarrow> st \<Rightarrow> fault + st" where
  "loop K s0 =
     (case millis s0 of
        (now, s) \<Rightarrow>
          if timed_out now s
          then Inr (retry_or_sleep (connection_status False (emit (LOG_E NoTransmission) s)))
          else dispatch K (state s) s)"

section \<open>Notions used to state the properties\<close>

text \<open>
  The accumulator of the frame assembler; the outgoing frame as \<open>out_buf_\<close> and
  \<open>data_out_size_\<close> record it, which is the frame sent last until an echo is suppressed
  (the echo branch sets \<open>data_out_size_\<close> to 0, and the record is empty from then to the
  next transmission); and the frame that was sent last, read from the events.
\<close>

definition accumulated :: "st \<Rightarrow> bytes" where
  "accumulated s = take (data_in_size s) (in_buf s)"

definition recorded_out_frame :: "st \<Rightarrow> bytes" where
  "recorded_out_frame s = take (data_out_size s) (out_buf s)"

fun last_tx :: "event list \<Rightarrow> bytes option" where
  "last_tx [] = None"
| "last_tx (e # es) =
     (case last_tx es of
        Some f \<Rightarrow> Some f
      | None \<Rightarrow> (case e of TX f \<Rightarrow> Some f | _ \<Rightarrow> None))"

definition last_transmitted :: "st \<Rightarrow> bytes option" where
  "last_transmitted s = last_tx (trace s)"

text \<open>Bytes from the meter (or the echo of the line) arrive between two calls of \<open>loop\<close>.\<close>

definition feed :: "bytes \<Rightarrow> st \<Rightarrow> st" where
  "feed bs s = s\<lparr>rx := rx s @ bs\<rparr>"


text \<open>
  The characters of a mode's range that index into the baud table; a character of both
  ranges is read as a mode B character by the source.
\<close>

definition in_B_subrange :: "ranges \<Rightarrow> u8 \<Rightarrow> bool" where
  "in_B_subrange K z =
     (z \<ge> PROTO_B_RANGE_BEGIN K \<and> z \<le> PROTO_B_RANGE_END K
      \<and> 1 + unat z - unat (PROTO_B_RANGE_BEGIN K) < length BAUDRATES)"

definition in_C_subrange :: "ranges \<Rightarrow> u8 \<Rightarrow> bool" where
  "in_C_subrange K z =
     (\<not> (z \<ge> PROTO_B_RANGE_BEGIN K \<and> z \<le> PROTO_B_RANGE_END K)
      \<and> z \<ge> PROTO_C_RANGE_BEGIN K \<and> z \<le> PROTO_C_RANGE_END K
      \<and> unat z - unat (PROTO_C_RANGE_BEGIN K) < length BAUDRATES)"

text \<open>The offsets at which a character occurs in a line, counted from \<open>i\<close>, and the
  offset of its \<open>k\<close>-th occurrence (\<open>k = 0\<close> for the first).\<close>

fun occurrences :: "u8 \<Rightarrow> nat \<Rightarrow> bytes \<Rightarrow> nat list" where
  "occurrences c i [] = []"
| "occurrences c i (x # xs) =
     (if x = c then i # occurrences c (Suc i) xs else occurrences c (Suc i) xs)"

definition nth_occurrence :: "u8 \<Rightarrow> nat \<Rightarrow> bytes \<Rightarrow> nat option" where
  "nth_occurrence c k line =
     (let ps = occurrences c 0 line in if k < length ps then Some (ps ! k) else None)"

text \<open>What a scan ends with for one kind of bracket, given what it has recorded so far
  (\<open>a\<close> the first, \<open>b\<close> the second) and the offsets \<open>ps\<close> still ahead.\<close>

definition pick1 :: "nat option \<Rightarrow> nat list \<Rightarrow> nat option" where
  "pick1 a ps =
     (case a of Some x \<Rightarrow> Some x | None \<Rightarrow> (case ps of [] \<Rightarrow> None | p # _ \<Rightarrow> Some p))"

definition pick2 :: "nat option \<Rightarrow> nat option \<Rightarrow> nat list \<Rightarrow> nat option" where
  "pick2 a b ps =
     (case b of
        Some y \<Rightarrow> Some y
      | None \<Rightarrow>
          (case a of
             Some x \<Rightarrow> (case ps of [] \<Rightarrow> None | p # _ \<Rightarrow> Some p)
           | None \<Rightarrow> (case ps of p # q # _ \<Rightarrow> Some q | _ \<Rightarrow> None)))"



text \<open>
  What the retry handler reads and what it arms: the mode D flag, the maximum, the
  counter, the retry delay and the update interval.
\<close>

definition retry_fields :: "st \<Rightarrow> bool \<times> nat \<times> nat \<times> u32 \<times> u32" where
  "retry_fields s =
     (force_mode_d s, max_retries s, retry_counter s, retry_delay s, update_interval_ms s)"




text \<open>
  The last byte of an accumulation, if it has one; and the bytes that complete no frame
  when they are stored one after the other, after a byte \<open>prev\<close>: none is ACK or STX,
  none follows ETX, and no LF follows CR (the four checks of lines 184 to 234).
\<close>

definition last_byte :: "bytes \<Rightarrow> u8 option" where
  "last_byte acc = (if acc = [] then None else Some (last acc))"

fun no_terminator :: "u8 option \<Rightarrow> bytes \<Rightarrow> bool" where
  "no_terminator prev [] = True"
| "no_terminator prev (b # bs) =
     (b \<noteq> ACK \<and> prev \<noteq> Some ETX \<and> b \<noteq> STX \<and> \<not> (prev = Some CR \<and> b = LF)
      \<and> no_terminator (Some b) bs)"





section \<open>Concrete configurations\<close>

text \<open>
  A set of range constants and a component at rest, for running the model on concrete
  inputs: mode B characters \<open>A\<close> to \<open>I\<close>, mode C characters \<open>0\<close> to \<open>9\<close>, an input
  array of 32 bytes, an output array of 84 bytes, a clock that stands still, two retries.
\<close>

definition zeros8 :: bytes where
  "zeros8 = [0, 0, 0, 0, 0, 0, 0, 0]"

definition K0 :: ranges where
  "K0 = \<lparr>PROTO_B_RANGE_BEGIN = ch CHR ''A'', PROTO_B_RANGE_END = ch CHR ''I'',
         PROTO_C_RANGE_BEGIN = ch CHR ''0'', PROTO_C_RANGE_END = ch CHR ''9''\<rparr>"

definition st0 :: st where
  "st0 = \<lparr>force_mode_d = False, battery_meter = False, config_baud_rate_max_bps = 0,
          connection_timeout_ms = 10000, max_retries = 2, retry_delay = 1000,
          update_interval_ms = 60000, state = INFINITE_WAIT, reported_state = INFINITE_WAIT,
          wait_next_state = INFINITE_WAIT, wait_start_timestamp = 0, wait_period_ms = 0,
          mode = PROTOCOL_MODE_A, baud_rate_identification = 0, meter_identification = [],
          retry_counter = 0, current_obis_index = 0,
          last_transmission_from_meter_timestamp = 0, retry_connection_start_timestamp = 0,
          scheduled_connection_start_timestamp = 0, scheduled_timestamp_set = False,
          lrc = 0, readout_lrc = 0, in_buf = zeros8 @ zeros8 @ zeros8 @ zeros8, data_in_size = 0,
          out_buf = zeros8 @ zeros8 @ zeros8 @ zeros8 @ zeros8 @ zeros8 @ zeros8 @ zeros8
                      @ zeros8 @ zeros8 @ [0, 0, 0, 0], data_out_size = 0, sensors = [], sensors_iterator = 0,
          baud_rate_char = 0, mode_d_empty_frame_received = False, new_baudrate = 0,
          rx = [], clk = (\<lambda>k. 0), clk_n = 0, trace = []\<rparr>"

text \<open>
  The component about to send the baud-switch frame to a mode C meter that identified
  itself with the character \<open>5\<close>; the component while the bytes \<open>0(1)\<close> ETX \<open>A\<close> wait
  and its running checksum is 0x55; the component in state \<open>c\<close> while the break message
  SOH \<open>B\<close> \<open>0\<close> ETX BCC waits; the component waiting for the identification while the
  frame \<open>/ABC\r\n\<close> waits.
\<close>

definition st_prepare_ack :: st where
  "st_prepare_ack = st0\<lparr>state := PREPARE_ACK, mode := PROTOCOL_MODE_C,
                         baud_rate_identification := ch CHR ''5''\<rparr>"

definition st_etx :: st where
  "st_etx = st0\<lparr>state := READOUT, lrc := 0x55, rx := str ''0(1)'' @ [ETX, 0x41]\<rparr>"

definition st_break :: "CommState \<Rightarrow> st" where
  "st_break c = st0\<lparr>state := c, rx := [SOH, ch CHR ''B'', ch CHR ''0'', ETX, 0x71]\<rparr>"

definition st_short_id :: st where
  "st_short_id = st0\<lparr>state := GET_IDENTIFICATION, rx := str ''/ABC'' @ [CR, LF]\<rparr>"


text \<open>
  The component after the call of \<open>loop\<close> that sends the identification request; after
  the next call, which takes in the echo of the request and suppresses it; and after the
  request, once \<open>receive_frame_\<close> has taken in the first bytes \<open>bs\<close> of a frame.
\<close>

definition st_request_sent :: st where
  "st_request_sent = projr (loop K0 (st0\<lparr>state := SEND_REQUEST\<rparr>))"

definition st_echo_suppressed :: st where
  "st_echo_suppressed = projr (loop K0 (feed id_request st_request_sent))"

definition st_partial :: "bytes \<Rightarrow> st" where
  "st_partial bs = snd (receive_frame (feed bs st_request_sent))"








section \<open>Properties\<close>

lemma xor_bytes_append: "xor_bytes acc (xs @ ys) = xor_bytes (xor_bytes acc xs) ys"
  by (induction xs arbitrary: acc) simp_all

text \<open>
  C6. For every byte sequence, the checksum of the sequence followed by its own checksum
  byte is 0: the exclusive-or fold from zero (the loop of \<open>update_lrc_\<close>, started as
  \<open>READOUT\<close> starts it with \<open>lrc_ = 0\<close>) over \<open>bs\<close> with the checksum of \<open>bs\<close>
  appended gives 0.
\<close>

theorem xor_checksum_appended_is_zero:
  "xor_bytes 0 (bs @ [xor_bytes 0 bs]) = 0
   \<and> lrc (update_lrc (bs @ [lrc (update_lrc bs (length bs) (s\<lparr>lrc := 0\<rparr>))])
             (Suc (length bs)) (s\<lparr>lrc := 0\<rparr>)) = 0"
  by (simp add: update_lrc_def xor_bytes_append)

subsection \<open>The frame assembler\<close>

lemmas tick_simps = millis_def update_last_transmission_from_meter_timestamp_def

text \<open>What \<open>receive_frame_\<close> returns for a stored byte is what the terminator checks
  return, as long as the time budget lasts.\<close>

lemma receive_loop_returns:
  assumes "\<not> clk s (clk_n s) - while_start > 15"
    and "check_frame (store_byte b (snd (millis s))) = (Some r, s2)"
  shows "receive_loop while_start (b # bs) s = (r, bs, s2)"
  using assms by (simp add: millis_def)

lemma ends_crlf:
  assumes "data_in_size s \<le> length (in_buf s)" "accumulated s = pre @ [CR, LF]"
  shows "data_in_size s = length pre + 2"
    and "in_buf s ! (data_in_size s - 2) = CR" and "in_buf s ! (data_in_size s - 1) = LF"
proof -
  have "length (accumulated s) = length pre + 2" using assms(2) by simp
  then show n: "data_in_size s = length pre + 2" using assms(1) by (simp add: accumulated_def)
  have "accumulated s ! length pre = CR" "accumulated s ! Suc (length pre) = LF"
    using assms(2) by (simp_all add: nth_append)
  then show "in_buf s ! (data_in_size s - 2) = CR" "in_buf s ! (data_in_size s - 1) = LF"
    using n by (simp_all add: accumulated_def)
qed

lemma echo_test:
  assumes "data_in_size s \<le> length (in_buf s)" "data_out_size s \<le> length (out_buf s)"
  shows "(data_in_size s = data_out_size s
           \<and> take (data_out_size s) (out_buf s) = take (data_out_size s) (in_buf s))
         \<longleftrightarrow> accumulated s = recorded_out_frame s"
proof
  assume "data_in_size s = data_out_size s
           \<and> take (data_out_size s) (out_buf s) = take (data_out_size s) (in_buf s)"
  then show "accumulated s = recorded_out_frame s" by (simp add: accumulated_def recorded_out_frame_def)
next
  assume eq: "accumulated s = recorded_out_frame s"
  then have "length (accumulated s) = length (recorded_out_frame s)" by simp
  then have "data_in_size s = data_out_size s"
    using assms by (simp add: accumulated_def recorded_out_frame_def)
  then show "data_in_size s = data_out_size s
           \<and> take (data_out_size s) (out_buf s) = take (data_out_size s) (in_buf s)"
    using eq by (simp add: accumulated_def recorded_out_frame_def)
qed

lemma check_frame_crlf:
  assumes "data_in_size s \<le> length (in_buf s)" and "data_out_size s \<le> length (out_buf s)"
    and "accumulated s = pre @ [CR, LF]"
  shows "(accumulated s = recorded_out_frame s \<longrightarrow>
            check_frame s = (Some 0, s\<lparr>data_out_size := 0, data_in_size := 0\<rparr>))
       \<and> (accumulated s \<noteq> recorded_out_frame s \<longrightarrow>
            check_frame s = (Some (data_in_size s),
               (update_last_transmission_from_meter_timestamp s)\<lparr>data_in_size := 0\<rparr>))"
proof -
  note e = ends_crlf [OF assms(1,3)]
  have n2: "2 \<le> data_in_size s" using e(1) by simp
  have nonterm: "in_buf s ! (data_in_size s - 1) \<noteq> ACK" "ETX \<noteq> in_buf s ! (data_in_size s - 2)"
    "STX \<noteq> in_buf s ! (data_in_size s - 1)"
    using e(2,3) by simp_all
  show ?thesis
    using n2 nonterm e(2,3) echo_test [OF assms(1,2)]
    by (auto simp add: check_frame_def Let_def)
qed

lemma accumulated_store_byte:
  assumes "data_in_size s < length (in_buf s)"
  shows "accumulated (store_byte b s) = accumulated s @ [b]"
    "data_in_size (store_byte b s) = Suc (data_in_size s)"
    "length (in_buf (store_byte b s)) = length (in_buf s)"
  using assms by (simp_all add: store_byte_def accumulated_def take_Suc_conv_app_nth)

lemma accumulated_last:
  assumes "data_in_size s \<le> length (in_buf s)" "accumulated s = acc @ [b]"
  shows "in_buf s ! (data_in_size s - 1) = b" "data_in_size s = Suc (length acc)"
proof -
  have "length (accumulated s) = Suc (length acc)" using assms(2) by simp
  then show n: "data_in_size s = Suc (length acc)" using assms(1) by (simp add: accumulated_def)
  have "accumulated s ! length acc = b" using assms(2) by simp
  then show "in_buf s ! (data_in_size s - 1) = b" using n by (simp add: accumulated_def)
qed

lemma accumulated_prev:
  assumes "data_in_size s \<le> length (in_buf s)" "accumulated s = acc @ [b]" "acc \<noteq> []"
  shows "in_buf s ! (data_in_size s - 2) = last acc" "2 \<le> data_in_size s"
proof -
  obtain acc' p where a: "acc = acc' @ [p]" using assms(3) by (metis rev_exhaust)
  have l: "length (accumulated s) = Suc (Suc (length acc'))" using assms(2) a by simp
  then have n: "data_in_size s = Suc (Suc (length acc'))" using assms(1) by (simp add: accumulated_def)
  then show "2 \<le> data_in_size s" by simp
  have "accumulated s ! length acc' = p" using assms(2) a by (simp add: nth_append)
  then show "in_buf s ! (data_in_size s - 2) = last acc" using n a by (simp add: accumulated_def)
qed

lemma check_frame_none:
  assumes "data_in_size s \<le> length (in_buf s)" "accumulated s = acc @ [b]"
    and "no_terminator (last_byte acc) [b]"
  shows "check_frame s = (None, s)"
proof (cases "acc = []")
  case True
  have "data_in_size s = 1" using accumulated_last [OF assms(1,2)] True by simp
  then show ?thesis
    using accumulated_last(1) [OF assms(1,2)] assms(3)
    by (auto simp: check_frame_def Let_def)
next
  case False
  note p = accumulated_prev [OF assms(1,2) False]
  show ?thesis
    using accumulated_last(1) [OF assms(1,2)] p assms(3) False
    by (auto simp: check_frame_def Let_def last_byte_def)
qed

lemma receive_loop_absorb:
  assumes "no_terminator (last_byte (accumulated s)) xs"
    and "data_in_size s + length xs \<le> length (in_buf s)"
    and "\<forall>k<length xs. \<not> clk s (clk_n s + k) - ws > 15"
  shows "\<exists>s'. receive_loop ws (xs @ ys) s = receive_loop ws ys s'
          \<and> accumulated s' = accumulated s @ xs
          \<and> data_in_size s' = data_in_size s + length xs
          \<and> length (in_buf s') = length (in_buf s)
          \<and> out_buf s' = out_buf s \<and> data_out_size s' = data_out_size s
          \<and> clk s' = clk s \<and> clk_n s' = clk_n s + length xs"
  using assms
proof (induction xs arbitrary: s)
  case Nil
  show ?case by (rule exI [of _ s]) simp
next
  case (Cons b bs)
  let ?t = "snd (millis s)"
  let ?s1 = "store_byte b ?t"
  have room: "data_in_size ?t < length (in_buf ?t)" using Cons.prems(2) by (simp add: millis_def)
  note a = accumulated_store_byte [OF room, of b]
  have acc_t: "accumulated ?t = accumulated s" by (simp add: accumulated_def millis_def)
  have acc1: "accumulated ?s1 = accumulated s @ [b]" using a(1) acc_t by simp
  have le1: "data_in_size ?s1 \<le> length (in_buf ?s1)" using a(2,3) room by simp
  have nt: "no_terminator (last_byte (accumulated s)) [b]" "no_terminator (Some b) bs"
    using Cons.prems(1) by simp_all
  have c: "check_frame ?s1 = (None, ?s1)" by (rule check_frame_none [OF le1 acc1 nt(1)])
  have b0: "\<not> clk s (clk_n s) - ws > 15" using Cons.prems(3) by auto
  have step: "receive_loop ws ((b # bs) @ ys) s = receive_loop ws (bs @ ys) ?s1"
    using b0 c by (simp add: millis_def)
  have f: "clk ?s1 = clk s" "clk_n ?s1 = Suc (clk_n s)" "out_buf ?s1 = out_buf s"
    "data_out_size ?s1 = data_out_size s" "data_in_size ?s1 = Suc (data_in_size s)"
    "length (in_buf ?s1) = length (in_buf s)"
    using room by (simp_all add: store_byte_def millis_def)
  have p1: "no_terminator (last_byte (accumulated ?s1)) bs"
    using nt(2) acc1 by (simp add: last_byte_def)
  have p2: "data_in_size ?s1 + length bs \<le> length (in_buf ?s1)"
    using Cons.prems(2) f by simp
  have p3: "\<forall>k<length bs. \<not> clk ?s1 (clk_n ?s1 + k) - ws > 15"
  proof (intro allI impI)
    fix k assume "k < length bs"
    then have "Suc k < length (b # bs)" by simp
    with Cons.prems(3) have "\<not> clk s (clk_n s + Suc k) - ws > 15" by blast
    then show "\<not> clk ?s1 (clk_n ?s1 + k) - ws > 15" using f by simp
  qed
  from Cons.IH [OF p1 p2 p3] obtain s' where
    s': "receive_loop ws (bs @ ys) ?s1 = receive_loop ws ys s'"
      "accumulated s' = accumulated ?s1 @ bs"
      "data_in_size s' = data_in_size ?s1 + length bs"
      "length (in_buf s') = length (in_buf ?s1)"
      "out_buf s' = out_buf ?s1" "data_out_size s' = data_out_size ?s1"
      "clk s' = clk ?s1" "clk_n s' = clk_n ?s1 + length bs"
    by blast
  show ?case
    by (rule exI [of _ s']) (use step s' acc1 f in simp)
qed


lemma store_byte_within:
  assumes "data_in_size s \<le> length (in_buf s)"
  shows "data_in_size (store_byte b s) \<le> length (in_buf (store_byte b s))"
proof (cases "data_in_size s < length (in_buf s)")
  case True
  then show ?thesis by (simp add: store_byte_def)
next
  case False
  then have "data_in_size s = length (in_buf s)" using assms by simp
  then show ?thesis by (simp add: store_byte_def memmove_left_def)
qed

text \<open>The last byte of a CR LF frame, on the loop.\<close>

lemma receive_loop_crlf:
  assumes "data_in_size s \<le> length (in_buf s)" and "data_out_size s \<le> length (out_buf s)"
    and "accumulated (store_byte b s) = pre @ [CR, LF]"
    and "\<not> clk s (clk_n s) - ws > 15"
  shows "(pre @ [CR, LF] = recorded_out_frame s \<longrightarrow>
           (\<exists>s'. receive_loop ws (b # rest) s = (0, rest, s')
                 \<and> data_in_size s' = 0 \<and> data_out_size s' = 0))
       \<and> (pre @ [CR, LF] \<noteq> recorded_out_frame s \<longrightarrow>
           (\<exists>s'. receive_loop ws (b # rest) s = (length pre + 2, rest, s')
                 \<and> take (length pre + 2) (in_buf s') = pre @ [CR, LF]
                 \<and> data_in_size s' = 0 \<and> data_out_size s' = data_out_size s))"
proof -
  let ?t = "snd (millis s)"
  let ?s1 = "store_byte b ?t"
  have t: "data_in_size ?t \<le> length (in_buf ?t)" using assms(1) by (simp add: millis_def)
  have w: "data_in_size ?s1 \<le> length (in_buf ?s1)" by (rule store_byte_within [OF t])
  have o: "data_out_size ?s1 \<le> length (out_buf ?s1)"
    using assms(2) by (simp add: store_byte_def millis_def)
  have "accumulated ?s1 = accumulated (store_byte b s)"
    by (simp add: accumulated_def store_byte_def millis_def)
  then have a: "accumulated ?s1 = pre @ [CR, LF]" using assms(3) by simp
  have r: "recorded_out_frame ?s1 = recorded_out_frame s"
    by (simp add: recorded_out_frame_def store_byte_def millis_def)
  have n: "data_in_size ?s1 = length pre + 2"
    using ends_crlf(1) [OF w a] .
  have d: "data_out_size ?s1 = data_out_size s" by (simp add: store_byte_def millis_def)
  note c = check_frame_crlf [OF w o a, unfolded a r n]
  have l: "receive_loop ws (b # rest) s =
      (case check_frame ?s1 of (Some r, s2) \<Rightarrow> (r, rest, s2)
        | (None, s2) \<Rightarrow> receive_loop ws rest s2)"
    using assms(4) by (simp add: millis_def)
  have tk: "take (length pre + 2) (in_buf ?s1) = pre @ [CR, LF]"
    using a n by (simp add: accumulated_def)
  show ?thesis
  proof (intro conjI impI)
    assume "pre @ [CR, LF] = recorded_out_frame s"
    with c have "check_frame ?s1 = (Some 0, ?s1\<lparr>data_out_size := 0, data_in_size := 0\<rparr>)" by simp
    then show "\<exists>s'. receive_loop ws (b # rest) s = (0, rest, s')
                 \<and> data_in_size s' = 0 \<and> data_out_size s' = 0"
      unfolding l by simp
  next
    assume "pre @ [CR, LF] \<noteq> recorded_out_frame s"
    with c have "check_frame ?s1 = (Some (length pre + 2),
        (update_last_transmission_from_meter_timestamp ?s1)\<lparr>data_in_size := 0\<rparr>)" by simp
    then show "\<exists>s'. receive_loop ws (b # rest) s = (length pre + 2, rest, s')
                 \<and> take (length pre + 2) (in_buf s') = pre @ [CR, LF]
                 \<and> data_in_size s' = 0 \<and> data_out_size s' = data_out_size s"
      unfolding l using tk d
      by (simp add: update_last_transmission_from_meter_timestamp_def millis_def)
  qed
qed

lemma receive_frame_crlf_frame:
  assumes "rx s = body @ [CR, LF] @ rest"
    and "no_terminator (last_byte (accumulated s)) (body @ [CR])"
    and "data_in_size s + length body + 2 \<le> length (in_buf s)"
    and "data_out_size s \<le> length (out_buf s)"
    and "\<forall>k<length body + 2. \<not> clk s (Suc (clk_n s) + k) - clk s (clk_n s) > 15"
  shows "(accumulated s @ body @ [CR, LF] = recorded_out_frame s \<longrightarrow>
           (\<exists>s'. receive_frame s = (0, s') \<and> data_in_size s' = 0 \<and> data_out_size s' = 0
                 \<and> rx s' = rest))
       \<and> (accumulated s @ body @ [CR, LF] \<noteq> recorded_out_frame s \<longrightarrow>
           (\<exists>s'. receive_frame s = (data_in_size s + length body + 2, s')
                 \<and> take (data_in_size s + length body + 2) (in_buf s')
                     = accumulated s @ body @ [CR, LF]
                 \<and> data_in_size s' = 0 \<and> data_out_size s' = data_out_size s
                 \<and> rx s' = rest))"
proof -
  let ?ws = "clk s (clk_n s)"
  let ?t = "snd (millis s)"
  have rf: "receive_frame s =
      (case receive_loop ?ws (rx s) ?t of (r, rest', s2) \<Rightarrow> (r, s2\<lparr>rx := rest'\<rparr>))"
    using assms(1) by (simp add: receive_frame_def millis_def)
  have acc_t: "accumulated ?t = accumulated s" by (simp add: accumulated_def millis_def)
  have p1: "no_terminator (last_byte (accumulated ?t)) (body @ [CR])"
    using assms(2) acc_t by simp
  have p2: "data_in_size ?t + length (body @ [CR]) \<le> length (in_buf ?t)"
    using assms(3) by (simp add: millis_def)
  have p3: "\<forall>k<length (body @ [CR]). \<not> clk ?t (clk_n ?t + k) - ?ws > 15"
    using assms(5) by (simp add: millis_def)
  from receive_loop_absorb [OF p1 p2 p3, of "LF # rest"] obtain s1 where
    s1: "receive_loop ?ws ((body @ [CR]) @ LF # rest) ?t = receive_loop ?ws (LF # rest) s1"
      "accumulated s1 = accumulated ?t @ body @ [CR]"
      "data_in_size s1 = data_in_size ?t + length (body @ [CR])"
      "length (in_buf s1) = length (in_buf ?t)"
      "out_buf s1 = out_buf ?t" "data_out_size s1 = data_out_size ?t"
      "clk s1 = clk ?t" "clk_n s1 = clk_n ?t + length (body @ [CR])"
    by blast
  have rxs: "rx s = (body @ [CR]) @ LF # rest" using assms(1) by simp
  have w1: "data_in_size s1 \<le> length (in_buf s1)" "data_in_size s1 < length (in_buf s1)"
    using s1(3,4) assms(3) by (simp_all add: millis_def)
  have o1: "data_out_size s1 \<le> length (out_buf s1)"
    using s1(5,6) assms(4) by (simp add: millis_def)
  have a1: "accumulated (store_byte LF s1) = (accumulated s @ body) @ [CR, LF]"
    using accumulated_store_byte(1) [OF w1(2), of LF] s1(2) acc_t by simp
  have b1: "\<not> clk s1 (clk_n s1) - ?ws > 15"
  proof -
    have "length body + 1 < length body + 2" by simp
    with assms(5) have "\<not> clk s (Suc (clk_n s) + (length body + 1)) - ?ws > 15" by blast
    then show ?thesis using s1(7,8) by (simp add: millis_def)
  qed
  have r1: "recorded_out_frame s1 = recorded_out_frame s"
    using s1(5,6) by (simp add: recorded_out_frame_def millis_def)
  have d1: "data_out_size s1 = data_out_size s" using s1(6) by (simp add: millis_def)
  have len: "length (accumulated s) = data_in_size s"
    using assms(3) by (simp add: accumulated_def)
  note c = receive_loop_crlf [OF w1(1) o1 a1 b1, of rest, unfolded r1 d1]
  show ?thesis
  proof (intro conjI impI)
    assume e: "accumulated s @ body @ [CR, LF] = recorded_out_frame s"
    with c obtain s' where "receive_loop ?ws (LF # rest) s1 = (0, rest, s')"
      "data_in_size s' = 0" "data_out_size s' = 0" by auto
    then show "\<exists>s'. receive_frame s = (0, s') \<and> data_in_size s' = 0 \<and> data_out_size s' = 0
                 \<and> rx s' = rest"
      unfolding rf rxs s1(1) by simp
  next
    assume e: "accumulated s @ body @ [CR, LF] \<noteq> recorded_out_frame s"
    with c obtain s' where "receive_loop ?ws (LF # rest) s1
        = (length (accumulated s @ body) + 2, rest, s')"
      "take (length (accumulated s @ body) + 2) (in_buf s') = (accumulated s @ body) @ [CR, LF]"
      "data_in_size s' = 0" "data_out_size s' = data_out_size s" by auto
    then show "\<exists>s'. receive_frame s = (data_in_size s + length body + 2, s')
                 \<and> take (data_in_size s + length body + 2) (in_buf s')
                     = accumulated s @ body @ [CR, LF]
                 \<and> data_in_size s' = 0 \<and> data_out_size s' = data_out_size s
                 \<and> rx s' = rest"
      unfolding rf rxs s1(1) using len by (simp add: add.assoc)
  qed
qed


lemma receive_frame_crlf_last_byte:
  assumes "rx s = b # rest"
    and "data_in_size s \<le> length (in_buf s)" and "data_out_size s \<le> length (out_buf s)"
    and "accumulated (store_byte b s) = pre @ [CR, LF]"
    and "\<not> clk s (Suc (clk_n s)) - clk s (clk_n s) > 15"
  shows "(pre @ [CR, LF] = recorded_out_frame s \<longrightarrow>
           (\<exists>s'. receive_frame s = (0, s') \<and> data_in_size s' = 0 \<and> data_out_size s' = 0
                 \<and> rx s' = rest))
       \<and> (pre @ [CR, LF] \<noteq> recorded_out_frame s \<longrightarrow>
           (\<exists>s'. receive_frame s = (length pre + 2, s')
                 \<and> take (length pre + 2) (in_buf s') = pre @ [CR, LF]
                 \<and> data_in_size s' = 0 \<and> data_out_size s' = data_out_size s
                 \<and> rx s' = rest))"
proof -
  let ?ws = "clk s (clk_n s)"
  let ?t = "snd (millis s)"
  have rf: "receive_frame s =
      (case receive_loop ?ws (b # rest) ?t of (r, rest', s2) \<Rightarrow> (r, s2\<lparr>rx := rest'\<rparr>))"
    using assms(1) by (simp add: receive_frame_def millis_def)
  have w: "data_in_size ?t \<le> length (in_buf ?t)" "data_out_size ?t \<le> length (out_buf ?t)"
    using assms(2,3) by (simp_all add: millis_def)
  have "accumulated (store_byte b ?t) = accumulated (store_byte b s)"
    by (simp add: accumulated_def store_byte_def millis_def)
  then have a: "accumulated (store_byte b ?t) = pre @ [CR, LF]" using assms(4) by simp
  have b: "\<not> clk ?t (clk_n ?t) - ?ws > 15" using assms(5) by (simp add: millis_def)
  have r: "recorded_out_frame ?t = recorded_out_frame s" "data_out_size ?t = data_out_size s"
    by (simp_all add: recorded_out_frame_def millis_def)
  note c = receive_loop_crlf [OF w a b, of rest, unfolded r]
  show ?thesis
  proof (intro conjI impI)
    assume "pre @ [CR, LF] = recorded_out_frame s"
    with c obtain s' where "receive_loop ?ws (b # rest) ?t = (0, rest, s')"
      "data_in_size s' = 0" "data_out_size s' = 0" by auto
    then show "\<exists>s'. receive_frame s = (0, s') \<and> data_in_size s' = 0 \<and> data_out_size s' = 0
                 \<and> rx s' = rest"
      unfolding rf by simp
  next
    assume "pre @ [CR, LF] \<noteq> recorded_out_frame s"
    with c obtain s' where "receive_loop ?ws (b # rest) ?t = (length pre + 2, rest, s')"
      "take (length pre + 2) (in_buf s') = pre @ [CR, LF]"
      "data_in_size s' = 0" "data_out_size s' = data_out_size s" by auto
    then show "\<exists>s'. receive_frame s = (length pre + 2, s')
                 \<and> take (length pre + 2) (in_buf s') = pre @ [CR, LF]
                 \<and> data_in_size s' = 0 \<and> data_out_size s' = data_out_size s
                 \<and> rx s' = rest"
      unfolding rf by simp
  qed
qed

text \<open>
  C3, as amended. \<open>receive_frame_\<close> is called while bytes wait, the sizes are within
  their arrays and the time budget of 15 ms lasts. The byte it stores completes an
  accumulation that ends in CR LF (first part: the last byte of the frame waits; second
  part: the rest of the frame waits, of which no byte before the LF completes a frame).
  If the accumulation is byte for byte equal to the outgoing frame that \<open>out_buf_\<close> and
  \<open>data_out_size_\<close> record, which is the frame sent last as long as no echo has been
  suppressed since it was sent, the assembler returns 0 (no frame), empties the
  accumulator and clears the record. For every other accumulation that ends in CR LF it
  returns the size of the accumulation, which stays in \<open>in_buf_\<close> as the completed
  frame, and keeps the record. The bytes after the frame stay waiting.
\<close>

theorem crlf_frame_echo_suppression:
  "(rx s = b # rest
      \<and> data_in_size s \<le> length (in_buf s) \<and> data_out_size s \<le> length (out_buf s)
      \<and> accumulated (store_byte b s) = pre @ [CR, LF]
      \<and> \<not> clk s (Suc (clk_n s)) - clk s (clk_n s) > 15
    \<longrightarrow> (pre @ [CR, LF] = recorded_out_frame s \<longrightarrow>
           (\<exists>s'. receive_frame s = (0, s') \<and> data_in_size s' = 0 \<and> data_out_size s' = 0
                 \<and> rx s' = rest))
       \<and> (pre @ [CR, LF] \<noteq> recorded_out_frame s \<longrightarrow>
           (\<exists>s'. receive_frame s = (length pre + 2, s')
                 \<and> take (length pre + 2) (in_buf s') = pre @ [CR, LF]
                 \<and> data_in_size s' = 0 \<and> data_out_size s' = data_out_size s
                 \<and> rx s' = rest)))
   \<and> (rx s = body @ [CR, LF] @ rest
      \<and> no_terminator (last_byte (accumulated s)) (body @ [CR])
      \<and> data_in_size s + length body + 2 \<le> length (in_buf s)
      \<and> data_out_size s \<le> length (out_buf s)
      \<and> (\<forall>k<length body + 2. \<not> clk s (Suc (clk_n s) + k) - clk s (clk_n s) > 15)
    \<longrightarrow> (accumulated s @ body @ [CR, LF] = recorded_out_frame s \<longrightarrow>
           (\<exists>s'. receive_frame s = (0, s') \<and> data_in_size s' = 0 \<and> data_out_size s' = 0
                 \<and> rx s' = rest))
       \<and> (accumulated s @ body @ [CR, LF] \<noteq> recorded_out_frame s \<longrightarrow>
           (\<exists>s'. receive_frame s = (data_in_size s + length body + 2, s')
                 \<and> take (data_in_size s + length body + 2) (in_buf s')
                     = accumulated s @ body @ [CR, LF]
                 \<and> data_in_size s' = 0 \<and> data_out_size s' = data_out_size s
                 \<and> rx s' = rest)))"
  using receive_frame_crlf_last_byte [of s b rest pre]
        receive_frame_crlf_frame [of s body rest]
  by (intro conjI impI; elim conjE; simp)

text \<open>
  C2, as amended. When the terminator checks complete a frame because the accumulator
  holds at least 2 bytes and its second-to-last byte is ETX (the last byte not being ACK,
  which is checked first), the frame's size is returned, the last byte is kept as the
  received checksum \<open>readout_lrc_\<close>, the accumulator is reset to empty, and the running
  checksum \<open>lrc_\<close> is left as it was.
\<close>

theorem etx_frame_captures_checksum:
  assumes "data_in_size s \<ge> 2"
    and "in_buf s ! (data_in_size s - 1) \<noteq> ACK"
    and "in_buf s ! (data_in_size s - 2) = ETX"
  shows "\<exists>s'. check_frame s = (Some (data_in_size s), s')
           \<and> readout_lrc s' = in_buf s ! (data_in_size s - 1)
           \<and> data_in_size s' = 0 \<and> in_buf s' = in_buf s \<and> lrc s' = lrc s"
  using assms by (simp add: check_frame_def Let_def tick_simps)

subsection \<open>Baud rates\<close>

lemma find_baud_table:
  "find_baud (BAUDRATES ! k) 0 BAUDRATES =
     (if k < 7 then Some k else find_baud (BAUDRATES ! k) 0 BAUDRATES)"
  "k \<noteq> 0 \<Longrightarrow> find_baud (BAUDRATES ! k) 1 (drop 1 BAUDRATES) =
     (if k < 7 then Some k else find_baud (BAUDRATES ! k) 1 (drop 1 BAUDRATES))"
proof -
  have k7: "k < 7 \<Longrightarrow> k = 0 \<or> k = 1 \<or> k = 2 \<or> k = 3 \<or> k = 4 \<or> k = 5 \<or> k = 6" by arith
  show "find_baud (BAUDRATES ! k) 0 BAUDRATES =
     (if k < 7 then Some k else find_baud (BAUDRATES ! k) 0 BAUDRATES)"
    using k7 by (auto simp: BAUDRATES_def)
  show "k \<noteq> 0 \<Longrightarrow> find_baud (BAUDRATES ! k) 1 (drop 1 BAUDRATES) =
     (if k < 7 then Some k else find_baud (BAUDRATES ! k) 1 (drop 1 BAUDRATES))"
    using k7 by (auto simp: BAUDRATES_def)
qed

lemma word_from_offset:
  fixes z b :: u8
  assumes "b \<le> z"
  shows "b + of_nat (unat z - unat b) = z"
proof -
  have "unat b \<le> unat z" using assms by (simp add: word_le_nat_alt)
  then have "unat b + (unat z - unat b) = unat z" by simp
  then have "of_nat (unat b + (unat z - unat b)) = (of_nat (unat z) :: u8)" by simp
  then show ?thesis by (simp del: of_nat_diff)
qed

lemma roundtrip_B:
  assumes "mode s = PROTOCOL_MODE_B" "in_B_subrange K z"
  shows "identification_to_baud_rate K z
           = Inr (BAUDRATES ! (1 + unat z - unat (PROTO_B_RANGE_BEGIN K)))"
    and "baud_rate_to_identification K s
           (BAUDRATES ! (1 + unat z - unat (PROTO_B_RANGE_BEGIN K))) = z"
proof -
  let ?b = "PROTO_B_RANGE_BEGIN K"
  let ?k = "1 + unat z - unat ?b"
  from assms(2) have le: "?b \<le> z" and k: "?k < 7"
    by (simp_all add: in_B_subrange_def BAUDRATES_def)
  have ule: "unat ?b \<le> unat z" using le by (simp add: word_le_nat_alt)
  then have k0: "?k \<noteq> 0" and keq: "?k = Suc (unat z - unat ?b)" by simp_all
  show "identification_to_baud_rate K z = Inr (BAUDRATES ! ?k)"
    using assms(2) by (simp add: identification_to_baud_rate_def in_B_subrange_def baud_at_def)
  have "find_baud (BAUDRATES ! ?k) 1 (drop 1 BAUDRATES) = Some ?k"
    using find_baud_table(2) [OF k0] k by simp
  then have "baud_rate_to_identification K s (BAUDRATES ! ?k) = ?b + of_nat ?k - 1"
    using assms(1) by (simp add: baud_rate_to_identification_def)
  also have "\<dots> = ?b + of_nat (unat z - unat ?b)"
    unfolding keq by (simp del: of_nat_diff)
  also have "\<dots> = z" by (rule word_from_offset [OF le])
  finally show "baud_rate_to_identification K s (BAUDRATES ! ?k) = z" .
qed

lemma roundtrip_C:
  assumes "mode s = PROTOCOL_MODE_C" "in_C_subrange K z"
  shows "identification_to_baud_rate K z
           = Inr (BAUDRATES ! (unat z - unat (PROTO_C_RANGE_BEGIN K)))"
    and "baud_rate_to_identification K s
           (BAUDRATES ! (unat z - unat (PROTO_C_RANGE_BEGIN K))) = z"
proof -
  let ?b = "PROTO_C_RANGE_BEGIN K"
  let ?k = "unat z - unat ?b"
  from assms(2) have le: "?b \<le> z" and k: "?k < 7"
    by (simp_all add: in_C_subrange_def BAUDRATES_def)
  show "identification_to_baud_rate K z = Inr (BAUDRATES ! ?k)"
    using assms(2)
    by (auto simp add: identification_to_baud_rate_def in_C_subrange_def baud_at_def)
  have "find_baud (BAUDRATES ! ?k) 0 BAUDRATES = Some ?k"
    using find_baud_table(1) [of ?k] k by simp
  then have "baud_rate_to_identification K s (BAUDRATES ! ?k) = ?b + of_nat ?k"
    using assms(1) by (simp add: baud_rate_to_identification_def)
  also have "\<dots> = z" by (rule word_from_offset [OF le])
  finally show "baud_rate_to_identification K s (BAUDRATES ! ?k) = z" .
qed

text \<open>
  C7. For every identification character of a mode's valid sub-range (mode B characters
  index the baud table from its second entry, mode C characters from its first), the
  character's rate is the table entry at that index, the rate converted back in the same
  mode is the character again, and on that table rate the reverse composition (rate to
  character to rate) gives the rate again.
\<close>

theorem baud_char_rate_roundtrip:
  "(mode s = PROTOCOL_MODE_B \<and> in_B_subrange K z \<longrightarrow>
      (\<exists>r. identification_to_baud_rate K z = Inr r
           \<and> r = BAUDRATES ! (1 + unat z - unat (PROTO_B_RANGE_BEGIN K))
           \<and> baud_rate_to_identification K s r = z
           \<and> identification_to_baud_rate K (baud_rate_to_identification K s r) = Inr r))
   \<and> (mode s = PROTOCOL_MODE_C \<and> in_C_subrange K z \<longrightarrow>
      (\<exists>r. identification_to_baud_rate K z = Inr r
           \<and> r = BAUDRATES ! (unat z - unat (PROTO_C_RANGE_BEGIN K))
           \<and> baud_rate_to_identification K s r = z
           \<and> identification_to_baud_rate K (baud_rate_to_identification K s r) = Inr r))"
  using roundtrip_B [of s K z] roundtrip_C [of s K z] by auto

subsection \<open>The data-line parser\<close>

lemma ch_paren_neq: "ch CHR ''('' \<noteq> ch CHR '')''"
  by (simp add: ch_def)

lemma scan_brackets_gen:
  "scan_brackets cs i (ob, cb, ob2, cb2) =
     (pick1 ob (occurrences (ch CHR ''('') i cs), pick1 cb (occurrences (ch CHR '')'') i cs),
      pick2 ob ob2 (occurrences (ch CHR ''('') i cs),
      pick2 cb cb2 (occurrences (ch CHR '')'') i cs))"
proof (induction cs arbitrary: i ob cb ob2 cb2)
  case Nil
  show ?case by (simp add: pick1_def pick2_def split: option.splits)
next
  case (Cons c cs)
  show ?case
    using ch_paren_neq
    by (cases ob; cases cb; cases ob2; cases cb2)
       (auto simp: Cons.IH pick1_def pick2_def split: list.splits)
qed

text \<open>
  C9, as amended. The scan records the offsets of the first and of the second \<open>(\<close> of
  the line and of the first and of the second \<open>)\<close>, each kind of bracket by itself: a
  second \<open>(\<close> is recorded also when no \<open>)\<close> has been found yet. For the line
  \<open>X((a)b)\<close> the parser returns the OBIS code \<open>X\<close>, value 1 \<open>(a\<close> and value 2 \<open>a)b\<close>.
\<close>

theorem scan_brackets_occurrences:
  "scan_brackets line 0 (None, None, None, None) =
     (nth_occurrence (ch CHR ''('') 0 line, nth_occurrence (ch CHR '')'') 0 line,
      nth_occurrence (ch CHR ''('') 1 line, nth_occurrence (ch CHR '')'') 1 line)
   \<and> parse_line (str ''X((a)b)'') = Some (str ''X'', str ''(a'', str ''a)b'')"
  by (simp add: scan_brackets_gen pick1_def pick2_def nth_occurrence_def Let_def
        parse_line_def str_def ch_def substr_def validate_obis_def obis_char_ok_def
      split: list.splits)

subsection \<open>Identification\<close>

lemma get_id_scan_hit: "buf ! i = ch CHR ''/'' \<Longrightarrow> get_id_scan buf i = Some i"
  by (cases i) simp_all

lemma get_id_scan_ABC:
  assumes "in_buf s = pre @ str ''/ABC'' @ [CR, LF] @ rest"
  shows "get_id_scan (in_buf s) (length pre + 3) = Some (length pre)"
proof -
  let ?b = "in_buf s"
  have n: "?b ! length pre = ch CHR ''/''" "?b ! Suc (length pre) = ch CHR ''A''"
    "?b ! Suc (Suc (length pre)) = ch CHR ''B''"
    "?b ! Suc (Suc (Suc (length pre))) = ch CHR ''C''"
    using assms by (simp_all add: nth_append str_def)
  have ne: "ch CHR ''/'' \<noteq> ch CHR ''A''" "ch CHR ''/'' \<noteq> ch CHR ''B''"
    "ch CHR ''/'' \<noteq> ch CHR ''C''"
    by (simp_all add: ch_def)
  have e: "length pre + 3 = Suc (Suc (Suc (length pre)))" by simp
  show ?thesis unfolding e using n ne get_id_scan_hit [of ?b "length pre"] by simp
qed

lemma cstr_ABC:
  "cstr ((pre @ str ''/ABC'' @ [CR, LF] @ rest)[length pre + 4 := 0]) (length pre)
     = str ''/ABC''"
  by (simp add: cstr_def list_update_append str_def ch_def)

text \<open>
  C8, as amended. For the 6-byte frame \<open>/ABC\r\n\<close> identification parsing fails:
  \<open>get_id_\<close> finds no identification in a frame shorter than the minimum of 7 bytes. When
  the same short identification text ends a frame of at least 7 bytes (bytes \<open>pre\<close>
  precede it in \<open>in_buf_\<close>, which has room for 2 more bytes after the frame),
  \<open>get_id_\<close> finds it and \<open>parse_id_\<close> yields the baud-rate identification character 0
  and, mode D not being forced and 0 lying in neither character range, protocol mode A.
\<close>

theorem identification_short_text:
  "fst (get_id 6 s) = None
   \<and> (in_buf s = pre @ str ''/ABC'' @ [CR, LF] @ rest \<and> pre \<noteq> [] \<and> 2 \<le> length rest
        \<and> \<not> force_mode_d s
        \<and> PROTO_B_RANGE_BEGIN K \<noteq> 0 \<and> PROTO_C_RANGE_BEGIN K \<noteq> 0
      \<longrightarrow> (\<exists>s1. get_id (length pre + 6) s = (Some (length pre), s1)
               \<and> meter_identification (parse_id K (length pre) s1) = str ''/ABC''
               \<and> baud_rate_identification (parse_id K (length pre) s1) = 0
               \<and> mode (parse_id K (length pre) s1) = PROTOCOL_MODE_A))"
proof (intro conjI impI)
  show "fst (get_id 6 s) = None" by (simp add: get_id_def)
next
  assume a: "in_buf s = pre @ str ''/ABC'' @ [CR, LF] @ rest \<and> pre \<noteq> [] \<and> 2 \<le> length rest
        \<and> \<not> force_mode_d s
        \<and> PROTO_B_RANGE_BEGIN K \<noteq> 0 \<and> PROTO_C_RANGE_BEGIN K \<noteq> 0"
  then have buf: "in_buf s = pre @ str ''/ABC'' @ [CR, LF] @ rest" by simp
  have len: "length (in_buf s) = length pre + 6 + length rest" by (simp add: buf str_def)
  have pre1: "1 \<le> length pre" using a by (cases pre) simp_all
  have z: "\<not> (0 \<ge> PROTO_B_RANGE_BEGIN K \<and> 0 \<le> PROTO_B_RANGE_END K)"
    "\<not> (0 \<ge> PROTO_C_RANGE_BEGIN K \<and> 0 \<le> PROTO_C_RANGE_END K)"
    using a by simp_all
  let ?s1 = "s\<lparr>in_buf := (in_buf s)[length pre + 4 := 0]\<rparr>"
  have i: "length pre + 6 - 1 - 2 = length pre + 3" "length pre + 6 - 2 = length pre + 4"
    "\<not> length (in_buf s) - 1 - length pre < 7" "length pre + 6 \<ge> 7"
    using a pre1 len by simp_all
  have g: "get_id (length pre + 6) s = (Some (length pre), ?s1)"
    unfolding get_id_def Let_def i(1,2) get_id_scan_ABC [OF buf]
    using i(3,4) by simp
  have c: "cstr (in_buf ?s1) (length pre) = str ''/ABC''"
    using cstr_ABC [of pre rest] by (simp add: buf)
  have l: "length (str ''/ABC'') = 4" by (simp add: str_def)
  show "\<exists>s1. get_id (length pre + 6) s = (Some (length pre), s1)
               \<and> meter_identification (parse_id K (length pre) s1) = str ''/ABC''
               \<and> baud_rate_identification (parse_id K (length pre) s1) = 0
               \<and> mode (parse_id K (length pre) s1) = PROTOCOL_MODE_A"
    unfolding g using a c l z
    by (simp add: parse_id_def Let_def set_protocol_def del: st.simps)
qed

subsection \<open>The baud-switch frame\<close>

lemma loop_dispatch:
  "\<not> timed_out (fst (millis s)) (snd (millis s)) \<Longrightarrow>
   loop K s = dispatch K (state s) (snd (millis s))"
  by (simp add: loop_def millis_def)

lemma frame6:
  "take 6 ((memcpy dst set_baud_and_programm 6)[2 := c]) = [ACK, 0x30, c, 0x31, CR, LF]"
  by (simp add: memcpy_def set_baud_and_programm_def)

lemma negotiated_baud_rate_char_cong:
  assumes "config_baud_rate_max_bps t = config_baud_rate_max_bps s"
    and "baud_rate_identification t = baud_rate_identification s" and "mode t = mode s"
  shows "negotiated_baud_rate_char K t = negotiated_baud_rate_char K s"
  unfolding negotiated_baud_rate_char_def baud_rate_to_identification_def assms
  by (rule refl)

lemma case_PREPARE_ACK_frame:
  assumes "mode s \<noteq> PROTOCOL_MODE_A" and "case_PREPARE_ACK K s = Inr s'"
  shows "negotiated_baud_rate_char K s = Inr (baud_rate_char s')
       \<and> trace s' = trace s @ [TX [ACK, 0x30, baud_rate_char s', 0x31, CR, LF]]
       \<and> data_out_size s' = 6
       \<and> take 6 (out_buf s') = [ACK, 0x30, baud_rate_char s', 0x31, CR, LF]"
proof -
  let ?s = "report_state s"
  have m: "mode ?s \<noteq> PROTOCOL_MODE_A" using assms(1) by (simp add: report_state_def)
  have n: "negotiated_baud_rate_char K ?s = negotiated_baud_rate_char K s"
    by (rule negotiated_baud_rate_char_cong) (simp_all add: report_state_def)
  have t: "trace ?s = trace s" by (simp add: report_state_def)
  have len: "length set_baud_and_programm = 6" by (simp add: set_baud_and_programm_def)
  from assms(2) m obtain c r where c: "negotiated_baud_rate_char K s = Inr c"
    and r: "identification_to_baud_rate K c = Inr r"
    and s': "s' = wait 250 SET_BAUD_RATE
        (emit (TX (take 6 ((memcpy (out_buf ?s) set_baud_and_programm 6)[2 := c])))
           (?s\<lparr>baud_rate_char := c, data_out_size := 6,
              out_buf := (memcpy (out_buf ?s) set_baud_and_programm 6)[2 := c]\<rparr>)
          \<lparr>new_baudrate := r\<rparr>)"
    unfolding case_PREPARE_ACK_def Let_def n len
    by (auto simp: send_frame_def emit_def split: sum.splits)
  show ?thesis
    unfolding s' c
    by (simp add: wait_def millis_def set_next_state_def send_frame_def emit_def frame6 t)
qed

text \<open>
  C1, as amended. For every negotiated baud-rate identification character \<open>c\<close>, the
  frame built in the \<open>PREPARE_ACK\<close> step is the 6 bytes ACK \<open>0\<close> \<open>c\<close> \<open>1\<close> CR LF: the
  character is written at offset 2 and is the third byte of the frame, after ACK and
  one \<open>0\<close>; the fourth byte is \<open>1\<close>. When the step completes (mode B or C, no timeout),
  these 6 bytes are what is sent, and \<open>c\<close> is the character the negotiation gives.
\<close>

theorem prepare_ack_frame_bytes:
  "take (length set_baud_and_programm)
       ((memcpy dst set_baud_and_programm (length set_baud_and_programm))[2 := c])
     = [ACK, 0x30, c, 0x31, CR, LF]
   \<and> (state s = PREPARE_ACK \<and> \<not> timed_out (fst (millis s)) (snd (millis s))
        \<and> mode s \<noteq> PROTOCOL_MODE_A \<and> 6 \<le> length (out_buf s) \<and> loop K s = Inr s'
      \<longrightarrow> negotiated_baud_rate_char K s = Inr (baud_rate_char s')
          \<and> trace s' = trace s @ [TX [ACK, 0x30, baud_rate_char s', 0x31, CR, LF]]
          \<and> data_out_size s' = 6
          \<and> take 6 (out_buf s') = [ACK, 0x30, baud_rate_char s', 0x31, CR, LF])"
proof -
  have frame: "take (length set_baud_and_programm)
       ((memcpy dst set_baud_and_programm (length set_baud_and_programm))[2 := c])
     = [ACK, 0x30, c, 0x31, CR, LF]"
    by (simp add: memcpy_def set_baud_and_programm_def)
  have step: "state s = PREPARE_ACK \<and> \<not> timed_out (fst (millis s)) (snd (millis s))
        \<and> mode s \<noteq> PROTOCOL_MODE_A \<and> 6 \<le> length (out_buf s) \<and> loop K s = Inr s'
      \<longrightarrow> negotiated_baud_rate_char K s = Inr (baud_rate_char s')
          \<and> trace s' = trace s @ [TX [ACK, 0x30, baud_rate_char s', 0x31, CR, LF]]
          \<and> data_out_size s' = 6
          \<and> take 6 (out_buf s') = [ACK, 0x30, baud_rate_char s', 0x31, CR, LF]"
  proof (rule impI)
    assume a: "state s = PREPARE_ACK \<and> \<not> timed_out (fst (millis s)) (snd (millis s))
        \<and> mode s \<noteq> PROTOCOL_MODE_A \<and> 6 \<le> length (out_buf s) \<and> loop K s = Inr s'"
    let ?t = "snd (millis s)"
    have l: "case_PREPARE_ACK K ?t = Inr s'"
      using a loop_dispatch [of s K] by simp
    have n: "negotiated_baud_rate_char K ?t = negotiated_baud_rate_char K s"
      by (rule negotiated_baud_rate_char_cong) (simp_all add: millis_def)
    have m: "mode ?t \<noteq> PROTOCOL_MODE_A" using a by (simp add: millis_def)
    have t: "trace ?t = trace s" by (simp add: millis_def)
    show "negotiated_baud_rate_char K s = Inr (baud_rate_char s')
          \<and> trace s' = trace s @ [TX [ACK, 0x30, baud_rate_char s', 0x31, CR, LF]]
          \<and> data_out_size s' = 6
          \<and> take 6 (out_buf s') = [ACK, 0x30, baud_rate_char s', 0x31, CR, LF]"
      using case_PREPARE_ACK_frame [OF m l] unfolding n t by simp
  qed
  show ?thesis by (rule conjI [OF frame step])
qed

subsection \<open>Retries\<close>

lemma rf_basic [simp]:
  "retry_fields (snd (millis s)) = retry_fields s"
  "retry_fields (emit e s) = retry_fields s"
  "retry_fields (report_state s) = retry_fields s"
  "retry_fields (set_next_state c s) = retry_fields s"
  "retry_fields (update_last_transmission_from_meter_timestamp s) = retry_fields s"
  "retry_fields (snd (check_wait_period s)) = retry_fields s"
  "retry_fields (connection_status b s) = retry_fields s"
  "retry_fields (update_baudrate r s) = retry_fields s"
  "retry_fields (send_frame s) = retry_fields s"
  "retry_fields (wait ms c s) = retry_fields s"
  "retry_fields (update_connection_start_timestamp s) = retry_fields s"
  "retry_fields (clear_uart_input_buffer s) = retry_fields s"
  "retry_fields (send_battery_wakeup_sequence s) = retry_fields s"
  "retry_fields (build_readout_command obis s) = retry_fields s"
  "retry_fields (update_lrc d n s) = retry_fields s"
  "retry_fields (reset_lrc s) = retry_fields s"
  "retry_fields (store_byte x s) = retry_fields s"
  "retry_fields (verify_all_sensors_got_value s) = retry_fields s"
  "retry_fields (set_protocol K z s) = retry_fields s"
  "retry_fields (parse_id K p s) = retry_fields s"
  "retry_fields (snd (get_id n s)) = retry_fields s"
  "retry_fields (snd (set_sensor_value i v1 v2 s)) = retry_fields s"
  by (simp_all add: retry_fields_def millis_def emit_def report_state_def set_next_state_def
        update_last_transmission_from_meter_timestamp_def check_wait_period_def
        connection_status_def update_baudrate_def send_frame_def wait_def
        update_connection_start_timestamp_def clear_uart_input_buffer_def
        send_battery_wakeup_sequence_def build_readout_command_def update_lrc_def reset_lrc_def
        store_byte_def verify_all_sensors_got_value_def set_protocol_def parse_id_def
        get_id_def set_sensor_value_def Let_def split_beta split: option.splits)

lemma rf_field_updates [simp]:
  "retry_fields (s\<lparr>state := a1\<rparr>) = retry_fields s"
  "retry_fields (s\<lparr>in_buf := a2\<rparr>) = retry_fields s"
  "retry_fields (s\<lparr>out_buf := a3\<rparr>) = retry_fields s"
  "retry_fields (s\<lparr>data_in_size := a4\<rparr>) = retry_fields s"
  "retry_fields (s\<lparr>data_out_size := a5\<rparr>) = retry_fields s"
  "retry_fields (s\<lparr>rx := a6\<rparr>) = retry_fields s"
  "retry_fields (s\<lparr>lrc := a7\<rparr>) = retry_fields s"
  "retry_fields (s\<lparr>readout_lrc := a8\<rparr>) = retry_fields s"
  "retry_fields (s\<lparr>current_obis_index := a9\<rparr>) = retry_fields s"
  "retry_fields (s\<lparr>sensors_iterator := b1\<rparr>) = retry_fields s"
  "retry_fields (s\<lparr>mode_d_empty_frame_received := b2\<rparr>) = retry_fields s"
  "retry_fields (s\<lparr>retry_connection_start_timestamp := b3\<rparr>) = retry_fields s"
  "retry_fields (s\<lparr>baud_rate_char := b4\<rparr>) = retry_fields s"
  "retry_fields (s\<lparr>new_baudrate := b5\<rparr>) = retry_fields s"
  by (simp_all add: retry_fields_def)

lemma rf_check_frame [simp]: "retry_fields (snd (check_frame s)) = retry_fields s"
  by (simp add: check_frame_def Let_def)

lemma rf_receive_loop [simp]:
  "retry_fields (snd (snd (receive_loop ws bs s))) = retry_fields s"
proof (induction bs arbitrary: s)
  case Nil
  show ?case by (simp add: split_beta)
next
  case (Cons b bs)
  have c: "retry_fields (snd (check_frame (store_byte b (snd (millis s))))) = retry_fields s"
    by simp
  show ?case
    using c Cons.IH [of "snd (check_frame (store_byte b (snd (millis s))))"]
    by (cases "check_frame (store_byte b (snd (millis s)))"; cases "fst (check_frame (store_byte b (snd (millis s))))")
       (auto simp: split_beta)
qed

lemma rf_receive_frame [simp]: "retry_fields (snd (receive_frame s)) = retry_fields s"
  by (simp add: receive_frame_def split_beta)

lemma rf_set_matching [simp]:
  "retry_fields (set_matching obis v1 v2 js s) = retry_fields s"
  by (induction js arbitrary: s) simp_all

lemma rf_parse_and_set [simp]: "retry_fields (parse_and_set s) = retry_fields s"
  by (simp add: parse_and_set_def update_matching_sensors_def split: option.splits)


lemma rf_plain_cases [simp]:
  "retry_fields (case_INFINITE_WAIT s) = retry_fields s"
  "retry_fields (case_WAIT s) = retry_fields s"
  "retry_fields (case_MODE_D_WAIT K s) = retry_fields s"
  "retry_fields (case_BEGIN s) = retry_fields s"
  "retry_fields (case_BATTERY_WAKEUP s) = retry_fields s"
  "retry_fields (case_SEND_REQUEST s) = retry_fields s"
  "retry_fields (case_SET_BAUD_RATE s) = retry_fields s"
  "retry_fields (case_SEND_PASSWORD s) = retry_fields s"
  "retry_fields (case_WAIT_FOR_ACK s) = retry_fields s"
  "retry_fields (case_READOUT2 s) = retry_fields s"
  by (simp_all add: case_INFINITE_WAIT_def case_WAIT_def case_MODE_D_WAIT_def case_BEGIN_def
        case_BATTERY_WAKEUP_def case_SEND_REQUEST_def case_SET_BAUD_RATE_def
        case_SEND_PASSWORD_def case_WAIT_FOR_ACK_def case_READOUT2_def Let_def split_beta
      split: option.splits)










subsection \<open>Mode D\<close>

















lemma feed_keeps [simp]:
  "mode_d_empty_frame_received (feed bs s) = mode_d_empty_frame_received s"
  "state (feed bs s) = state s" "sensors (feed bs s) = sensors s" "trace (feed bs s) = trace s"
  by (simp_all add: feed_def)












subsection \<open>Concrete inputs\<close>

lemmas fixture_simps = st0_def K0_def zeros8_def str_def ch_def
lemmas frame_simps = receive_frame_def millis_def store_byte_def check_frame_def Let_def
  update_last_transmission_from_meter_timestamp_def reset_lrc_def memmove_left_def
lemmas loop_simps = loop_def timed_out_def is_wait_state_def report_state_def
  retry_or_sleep_def wait_next_readout_def emit_def wait_def set_next_state_def
  retry_counter_inc_def retry_counter_reset_def connection_status_def
  is_periodic_readout_enabled_def

text \<open>
  The claim as stated (character in the fourth byte, after two \<open>0\<close> bytes) fails for C1: in mode C with the identification character \<open>5\<close> and no configured limit, the step sends ACK \<open>0\<close> \<open>5\<close> \<open>1\<close> CR LF.
\<close>

theorem prepare_ack_frame_baud_char_not_fourth:
  "\<not> isl (loop K0 st_prepare_ack)
   \<and> baud_rate_char (projr (loop K0 st_prepare_ack)) = ch CHR ''5''
   \<and> trace (projr (loop K0 st_prepare_ack))
        = [TX [ACK, ch CHR ''0'', ch CHR ''5'', ch CHR ''1'', CR, LF]]
   \<and> trace (projr (loop K0 st_prepare_ack))
        \<noteq> [TX [ACK, ch CHR ''0'', ch CHR ''0'', ch CHR ''5'', CR, LF]]"
  by (simp add: st_prepare_ack_def fixture_simps loop_simps case_PREPARE_ACK_def
        negotiated_baud_rate_char_def send_frame_def memcpy_def set_baud_and_programm_def
        identification_to_baud_rate_def baud_at_def BAUDRATES_def MAX_BAUDRATE_def millis_def
        Let_def)

text \<open>
  The amended C1 on the same input.
\<close>

theorem prepare_ack_frame_bytes_witness:
  "\<exists>s'. loop K0 (st0\<lparr>state := PREPARE_ACK, mode := PROTOCOL_MODE_C,
                      baud_rate_identification := ch CHR ''5''\<rparr>) = Inr s'
        \<and> negotiated_baud_rate_char K0 (st0\<lparr>state := PREPARE_ACK, mode := PROTOCOL_MODE_C,
                      baud_rate_identification := ch CHR ''5''\<rparr>) = Inr (ch CHR ''5'')
        \<and> trace s' = [TX [ACK, 0x30, ch CHR ''5'', 0x31, CR, LF]]"
proof -
  let ?s = "st0\<lparr>state := PREPARE_ACK, mode := PROTOCOL_MODE_C,
                baud_rate_identification := ch CHR ''5''\<rparr>"
  have n: "negotiated_baud_rate_char K0 ?s = Inr (ch CHR ''5'')"
    by (simp add: fixture_simps negotiated_baud_rate_char_def identification_to_baud_rate_def
          baud_at_def BAUDRATES_def)
  have "\<exists>s'. loop K0 ?s = Inr s'"
    by (simp add: fixture_simps loop_simps case_PREPARE_ACK_def negotiated_baud_rate_char_def
        send_frame_def memcpy_def set_baud_and_programm_def identification_to_baud_rate_def
        baud_at_def BAUDRATES_def MAX_BAUDRATE_def millis_def Let_def)
  then obtain s' where l: "loop K0 ?s = Inr s'" by blast
  have h: "state ?s = PREPARE_ACK" "\<not> timed_out (fst (millis ?s)) (snd (millis ?s))"
    "mode ?s \<noteq> PROTOCOL_MODE_A" "6 \<le> length (out_buf ?s)" "trace ?s = []"
    by (simp_all add: fixture_simps timed_out_def is_wait_state_def millis_def)
  from prepare_ack_frame_bytes [of zeros8 0 ?s K0 s'] h l n
  have "trace s' = [TX [ACK, 0x30, ch CHR ''5'', 0x31, CR, LF]]" by simp
  with l n show ?thesis by blast
qed

text \<open>
  The claim as stated (the running checksum reset to zero) fails for C2: the bytes \<open>0(1)\<close> ETX \<open>A\<close> arrive while \<open>lrc_\<close> is 0x55; the frame of 6 bytes is completed by the ETX check, \<open>A\<close> is kept as the received checksum, and \<open>lrc_\<close> is still 0x55.
\<close>

theorem etx_frame_keeps_lrc:
  "fst (receive_frame st_etx) = 6
   \<and> take 6 (in_buf (snd (receive_frame st_etx))) = str ''0(1)'' @ [ETX, 0x41]
   \<and> readout_lrc (snd (receive_frame st_etx)) = 0x41
   \<and> data_in_size (snd (receive_frame st_etx)) = 0
   \<and> lrc (snd (receive_frame st_etx)) = 0x55
   \<and> lrc (snd (receive_frame st_etx)) \<noteq> 0"
  by (simp add: st_etx_def fixture_simps frame_simps)

text \<open>
  The amended C2 on the accumulator of that frame.
\<close>

theorem etx_frame_captures_checksum_witness:
  "\<exists>s'. check_frame (st0\<lparr>lrc := 0x55, in_buf := str ''0(1)'' @ [ETX, 0x41] @ zeros8,
                          data_in_size := 6\<rparr>) = (Some 6, s')
        \<and> readout_lrc s' = 0x41 \<and> data_in_size s' = 0 \<and> lrc s' = 0x55"
proof -
  let ?s = "st0\<lparr>lrc := 0x55, in_buf := str ''0(1)'' @ [ETX, 0x41] @ zeros8, data_in_size := 6\<rparr>"
  have h: "data_in_size ?s \<ge> 2" "in_buf ?s ! (data_in_size ?s - 1) \<noteq> ACK"
    "in_buf ?s ! (data_in_size ?s - 2) = ETX"
    by (simp_all add: fixture_simps)
  have v: "data_in_size ?s = 6" "in_buf ?s ! (data_in_size ?s - 1) = 0x41" "lrc ?s = 0x55"
    by (simp_all add: fixture_simps)
  from etx_frame_captures_checksum [OF h] obtain s' where
    c: "check_frame ?s = (Some (data_in_size ?s), s')"
       "readout_lrc s' = in_buf ?s ! (data_in_size ?s - 1)"
       "data_in_size s' = 0" "lrc s' = lrc ?s"
    by blast
  show ?thesis by (rule exI [of _ s']) (use c v in simp)
qed

text \<open>
  C5. The claim: at every step that expects STX or ACK as the first byte of the next frame,
  a completed frame with an unexpected first byte invokes the retry policy. The source
  does so in \<open>WAIT_FOR_STX\<close> (and in \<open>WAIT_FOR_STX2\<close>, \<open>WAIT_FOR_PPP\<close>,
  \<open>WAIT_FOR_PPP_READ_DATA\<close>), not in \<open>WAIT_FOR_ACK\<close>: when the meter answers the
  password with the break message SOH \<open>B\<close> \<open>0\<close> ETX BCC, the frame is consumed and the
  machine stays in \<open>WAIT_FOR_ACK\<close> with the retry counter unchanged, whereas the same
  frame in \<open>WAIT_FOR_STX\<close> arms a retry.
\<close>

theorem wait_for_ack_unexpected_byte_no_retry:
  "\<not> isl (loop K0 (st_break WAIT_FOR_ACK))
   \<and> take 5 (in_buf (projr (loop K0 (st_break WAIT_FOR_ACK))))
        = [SOH, ch CHR ''B'', ch CHR ''0'', ETX, 0x71]
   \<and> rx (projr (loop K0 (st_break WAIT_FOR_ACK))) = []
   \<and> data_in_size (projr (loop K0 (st_break WAIT_FOR_ACK))) = 0
   \<and> state (projr (loop K0 (st_break WAIT_FOR_ACK))) = WAIT_FOR_ACK
   \<and> retry_counter (projr (loop K0 (st_break WAIT_FOR_ACK))) = 0
   \<and> trace (projr (loop K0 (st_break WAIT_FOR_ACK))) = []
   \<and> \<not> isl (loop K0 (st_break WAIT_FOR_STX))
   \<and> state (projr (loop K0 (st_break WAIT_FOR_STX))) = WAIT
   \<and> wait_next_state (projr (loop K0 (st_break WAIT_FOR_STX))) = BEGIN
   \<and> retry_counter (projr (loop K0 (st_break WAIT_FOR_STX))) = 1"
  by (simp add: st_break_def fixture_simps frame_simps loop_simps case_WAIT_FOR_ACK_def
        case_WAIT_FOR_STX_def)

text \<open>
  C7 on the mode B character \<open>E\<close> and the mode C character \<open>5\<close>, both 9600 bps.
\<close>

theorem baud_char_rate_roundtrip_witness:
  "in_B_subrange K0 (ch CHR ''E'')
   \<and> identification_to_baud_rate K0 (ch CHR ''E'') = Inr 9600
   \<and> baud_rate_to_identification K0 (st0\<lparr>mode := PROTOCOL_MODE_B\<rparr>) 9600 = ch CHR ''E''
   \<and> in_C_subrange K0 (ch CHR ''5'')
   \<and> identification_to_baud_rate K0 (ch CHR ''5'') = Inr 9600
   \<and> baud_rate_to_identification K0 (st0\<lparr>mode := PROTOCOL_MODE_C\<rparr>) 9600 = ch CHR ''5''"
proof -
  have b: "mode (st0\<lparr>mode := PROTOCOL_MODE_B\<rparr>) = PROTOCOL_MODE_B"
    "in_B_subrange K0 (ch CHR ''E'')"
    "BAUDRATES ! (1 + unat (ch CHR ''E'') - unat (PROTO_B_RANGE_BEGIN K0)) = 9600"
    by (simp_all add: in_B_subrange_def K0_def ch_def BAUDRATES_def)
  have c: "mode (st0\<lparr>mode := PROTOCOL_MODE_C\<rparr>) = PROTOCOL_MODE_C"
    "in_C_subrange K0 (ch CHR ''5'')"
    "BAUDRATES ! (unat (ch CHR ''5'') - unat (PROTO_C_RANGE_BEGIN K0)) = 9600"
    by (simp_all add: in_C_subrange_def K0_def ch_def BAUDRATES_def)
  from baud_char_rate_roundtrip [of "st0\<lparr>mode := PROTOCOL_MODE_B\<rparr>" K0 "ch CHR ''E''"] b
  have 1: "identification_to_baud_rate K0 (ch CHR ''E'') = Inr 9600
     \<and> baud_rate_to_identification K0 (st0\<lparr>mode := PROTOCOL_MODE_B\<rparr>) 9600 = ch CHR ''E''"
    by auto
  from baud_char_rate_roundtrip [of "st0\<lparr>mode := PROTOCOL_MODE_C\<rparr>" K0 "ch CHR ''5''"] c
  have 2: "identification_to_baud_rate K0 (ch CHR ''5'') = Inr 9600
     \<and> baud_rate_to_identification K0 (st0\<lparr>mode := PROTOCOL_MODE_C\<rparr>) 9600 = ch CHR ''5''"
    by auto
  show ?thesis using 1 2 b(2) c(2) by simp
qed

text \<open>
  The claim as stated (parsing succeeds) fails for C8: the frame \<open>/ABC\r\n\<close> arrives in \<open>GET_IDENTIFICATION\<close>; it is assembled as a frame of 6 bytes, \<open>get_id_\<close> returns no identification, the error "Invalid identification frame" is logged and the retry handler arms a retry.
\<close>

theorem short_identification_frame_rejected:
  "fst (receive_frame st_short_id) = 6
   \<and> take 6 (in_buf (snd (receive_frame st_short_id))) = str ''/ABC'' @ [CR, LF]
   \<and> fst (get_id 6 (snd (receive_frame st_short_id))) = None
   \<and> \<not> isl (loop K0 st_short_id)
   \<and> trace (projr (loop K0 st_short_id)) = [LOG_E InvalidIdentification]
   \<and> state (projr (loop K0 st_short_id)) = WAIT
   \<and> wait_next_state (projr (loop K0 st_short_id)) = BEGIN
   \<and> retry_counter (projr (loop K0 st_short_id)) = 1"
  by (simp add: st_short_id_def fixture_simps frame_simps loop_simps
        case_GET_IDENTIFICATION_def get_id_def)

text \<open>
  The amended C8 on the frame \<open>XYZ/ABC\r\n\<close>.
\<close>

theorem identification_short_text_witness:
  "\<exists>s1. get_id 9 (st0\<lparr>in_buf := str ''XYZ/ABC'' @ [CR, LF] @ zeros8\<rparr>) = (Some 3, s1)
        \<and> meter_identification (parse_id K0 3 s1) = str ''/ABC''
        \<and> baud_rate_identification (parse_id K0 3 s1) = 0
        \<and> mode (parse_id K0 3 s1) = PROTOCOL_MODE_A"
proof -
  let ?s = "st0\<lparr>in_buf := str ''XYZ/ABC'' @ [CR, LF] @ zeros8\<rparr>"
  have h: "in_buf ?s = str ''XYZ'' @ str ''/ABC'' @ [CR, LF] @ zeros8 \<and> str ''XYZ'' \<noteq> []
      \<and> 2 \<le> length zeros8 \<and> \<not> force_mode_d ?s
      \<and> PROTO_B_RANGE_BEGIN K0 \<noteq> 0 \<and> PROTO_C_RANGE_BEGIN K0 \<noteq> 0"
    by (simp add: fixture_simps)
  have l: "length (str ''XYZ'') = 3" by (simp add: str_def)
  from identification_short_text [of ?s "str ''XYZ''" zeros8 K0] h
  have "\<exists>s1. get_id (length (str ''XYZ'') + 6) ?s = (Some (length (str ''XYZ'')), s1)
        \<and> meter_identification (parse_id K0 (length (str ''XYZ'')) s1) = str ''/ABC''
        \<and> baud_rate_identification (parse_id K0 (length (str ''XYZ'')) s1) = 0
        \<and> mode (parse_id K0 (length (str ''XYZ'')) s1) = PROTOCOL_MODE_A"
    by (rule conjunct2 [THEN mp])
  then show ?thesis by (simp add: l)
qed

text \<open>
  The claim as stated (value 2 empty) fails for C9: in \<open>X((\<close> the second \<open>(\<close> is recorded with no \<open>)\<close> found, and for \<open>X((a)b)\<close> value 2 is \<open>a)b\<close>.
\<close>

theorem second_bracket_before_first_close:
  "scan_brackets (str ''X(('') 0 (None, None, None, None) = (Some 1, None, Some 2, None)
   \<and> scan_brackets (str ''X((a)b)'') 0 (None, None, None, None)
       = (Some 1, Some 4, Some 2, Some 6)
   \<and> parse_line (str ''X((a)b)'') = Some (str ''X'', str ''(a'', str ''a)b'')
   \<and> str ''a)b'' \<noteq> []"
  by (simp add: parse_line_def str_def ch_def substr_def validate_obis_def obis_char_ok_def)

text \<open>
  The claim as stated (an accumulation that ends in CR LF and equals the frame sent last
  is never returned as a frame) fails for C3: the identification request \<open>/?!\r\n\<close> is
  sent, its echo arrives and is suppressed, which clears the record of the outgoing
  frame; the same five bytes arrive once more while the request is still the frame sent
  last, and \<open>receive_frame_\<close> returns them as a frame of 5 bytes, which
  \<open>GET_IDENTIFICATION\<close> rejects as an invalid identification and answers with a retry.
\<close>

lemmas echo_simps = st_echo_suppressed_def st_request_sent_def feed_def id_request_def fixture_simps frame_simps
  loop_simps case_SEND_REQUEST_def clear_uart_input_buffer_def send_frame_def memcpy_def
  case_GET_IDENTIFICATION_def get_id_def

theorem second_echo_returned_as_frame:
  "last_transmitted st_request_sent = Some id_request
   \<and> fst (receive_frame (feed id_request st_request_sent)) = 0
   \<and> last_transmitted st_echo_suppressed = Some id_request
   \<and> state st_echo_suppressed = GET_IDENTIFICATION
   \<and> accumulated st_echo_suppressed = []
   \<and> rx (feed id_request st_echo_suppressed) = id_request
   \<and> fst (receive_frame (feed id_request st_echo_suppressed)) = 5
   \<and> take 5 (in_buf (snd (receive_frame (feed id_request st_echo_suppressed)))) = id_request
   \<and> trace (projr (loop K0 (feed id_request st_echo_suppressed)))
        = [TX id_request, LOG_E InvalidIdentification]
   \<and> retry_counter (projr (loop K0 (feed id_request st_echo_suppressed))) = 1"
  by (simp add: echo_simps last_transmitted_def accumulated_def)

text \<open>
  The amended C3 after the identification request has been sent: on the echo of the
  request and on the frame \<open>/ABC5xyz\r\n\<close>, each arriving at once, and each arriving
  with its LF apart.
\<close>

lemmas witness_simps = st_partial_def st_request_sent_def feed_def id_request_def fixture_simps frame_simps
  loop_simps case_SEND_REQUEST_def clear_uart_input_buffer_def send_frame_def memcpy_def
  accumulated_def recorded_out_frame_def last_byte_def

theorem crlf_frame_echo_suppression_witness:
  "fst (receive_frame (feed id_request st_request_sent)) = 0
   \<and> data_in_size (snd (receive_frame (feed id_request st_request_sent))) = 0
   \<and> fst (receive_frame (feed (str ''/ABC5xyz'' @ [CR, LF]) st_request_sent)) = 10
   \<and> take 10 (in_buf (snd (receive_frame (feed (str ''/ABC5xyz'' @ [CR, LF]) st_request_sent))))
        = str ''/ABC5xyz'' @ [CR, LF]
   \<and> fst (receive_frame (st_partial (str ''/?!'' @ [CR]))) = 0
   \<and> fst (receive_frame (feed [LF] (st_partial (str ''/?!'' @ [CR])))) = 0
   \<and> fst (receive_frame (feed [LF] (st_partial (str ''/ABC5xyz'' @ [CR])))) = 10"
proof -
  let ?e = "feed id_request st_request_sent"
  let ?f = "feed (str ''/ABC5xyz'' @ [CR, LF]) st_request_sent"
  let ?g = "feed [LF] (st_partial (str ''/?!'' @ [CR]))"
  let ?h = "feed [LF] (st_partial (str ''/ABC5xyz'' @ [CR]))"
  have he: "rx ?e = str ''/?!'' @ [CR, LF] @ []"
    "no_terminator (last_byte (accumulated ?e)) (str ''/?!'' @ [CR])"
    "data_in_size ?e + length (str ''/?!'') + 2 \<le> length (in_buf ?e)"
    "data_out_size ?e \<le> length (out_buf ?e)"
    "\<forall>k<length (str ''/?!'') + 2. \<not> clk ?e (Suc (clk_n ?e) + k) - clk ?e (clk_n ?e) > 15"
    "accumulated ?e @ str ''/?!'' @ [CR, LF] = recorded_out_frame ?e"
    by (simp_all add: witness_simps)
  have hf: "rx ?f = str ''/ABC5xyz'' @ [CR, LF] @ []"
    "no_terminator (last_byte (accumulated ?f)) (str ''/ABC5xyz'' @ [CR])"
    "data_in_size ?f + length (str ''/ABC5xyz'') + 2 \<le> length (in_buf ?f)"
    "data_out_size ?f \<le> length (out_buf ?f)"
    "\<forall>k<length (str ''/ABC5xyz'') + 2. \<not> clk ?f (Suc (clk_n ?f) + k) - clk ?f (clk_n ?f) > 15"
    "accumulated ?f @ str ''/ABC5xyz'' @ [CR, LF] \<noteq> recorded_out_frame ?f"
    "accumulated ?f @ str ''/ABC5xyz'' @ [CR, LF] = str ''/ABC5xyz'' @ [CR, LF]"
    "data_in_size ?f + length (str ''/ABC5xyz'') + 2 = 10"
    by (simp_all add: witness_simps)
  have hg: "rx ?g = LF # []"
    "data_in_size ?g \<le> length (in_buf ?g)" "data_out_size ?g \<le> length (out_buf ?g)"
    "accumulated (store_byte LF ?g) = str ''/?!'' @ [CR, LF]"
    "\<not> clk ?g (Suc (clk_n ?g)) - clk ?g (clk_n ?g) > 15"
    "str ''/?!'' @ [CR, LF] = recorded_out_frame ?g"
    "fst (receive_frame (st_partial (str ''/?!'' @ [CR]))) = 0"
    by (simp_all add: witness_simps)
  have hh: "rx ?h = LF # []"
    "data_in_size ?h \<le> length (in_buf ?h)" "data_out_size ?h \<le> length (out_buf ?h)"
    "accumulated (store_byte LF ?h) = str ''/ABC5xyz'' @ [CR, LF]"
    "\<not> clk ?h (Suc (clk_n ?h)) - clk ?h (clk_n ?h) > 15"
    "str ''/ABC5xyz'' @ [CR, LF] \<noteq> recorded_out_frame ?h"
    "length (str ''/ABC5xyz'') + 2 = 10"
    by (simp_all add: witness_simps)
  from crlf_frame_echo_suppression [where s = ?e and body = "str ''/?!''" and rest = "[]"
      and b = 0 and pre = "[]"] he
  have 1: "\<exists>s'. receive_frame ?e = (0, s') \<and> data_in_size s' = 0 \<and> data_out_size s' = 0
                 \<and> rx s' = []"
    by simp
  from crlf_frame_echo_suppression [where s = ?f and body = "str ''/ABC5xyz''"
      and rest = "[]" and b = 0 and pre = "[]"]
    hf(1-6)
  have 2: "\<exists>s'. receive_frame ?f = (data_in_size ?f + length (str ''/ABC5xyz'') + 2, s')
        \<and> take (data_in_size ?f + length (str ''/ABC5xyz'') + 2) (in_buf s')
             = accumulated ?f @ str ''/ABC5xyz'' @ [CR, LF]
        \<and> data_in_size s' = 0 \<and> data_out_size s' = data_out_size ?f \<and> rx s' = []"
    by simp
  from crlf_frame_echo_suppression [where s = ?g and b = LF and rest = "[]"
      and pre = "str ''/?!''" and body = "[]"] hg(1-6)
  have 3: "\<exists>s'. receive_frame ?g = (0, s') \<and> data_in_size s' = 0 \<and> data_out_size s' = 0
                 \<and> rx s' = []"
    by simp
  from crlf_frame_echo_suppression [where s = ?h and b = LF and rest = "[]"
      and pre = "str ''/ABC5xyz''" and body = "[]"] hh(1-6)
  have 4: "\<exists>s'. receive_frame ?h = (length (str ''/ABC5xyz'') + 2, s')
        \<and> take (length (str ''/ABC5xyz'') + 2) (in_buf s') = str ''/ABC5xyz'' @ [CR, LF]
        \<and> data_in_size s' = 0 \<and> data_out_size s' = data_out_size ?h \<and> rx s' = []"
    by simp
  show ?thesis
    using 1 2 3 4 hg(7) unfolding hf(7,8) by (auto simp: str_def)
qed







end
